theory Spec2Isabelle
  imports
    Complex_Main
    "HOL-Library.Sublist"
    "HOL-Library.Multiset"
    "HOL-Library.Char_ord"
    "HOL-Library.List_Lexorder"
begin

section \<open>JavaScript values and the configuration\<close>

text \<open>
  The source computes with JavaScript numbers. Clock readings (\<^verbatim>\<open>Date.now()\<close>),
  durations, distances and the energy scalar are modelled as \<^typ>\<open>real\<close>; item counts
  and the rotation cursor are natural numbers. A configuration entry that may be absent
  is an \<^typ>\<open>real option\<close>, \<open>None\<close> standing for \<^verbatim>\<open>undefined\<close>; an entry that is
  present is taken to be a finite number.
\<close>

definition num_or :: "real \<Rightarrow> real option \<Rightarrow> real" where
  \<comment> \<open>\<^verbatim>\<open>Number.isFinite(Number(x)) ? Number(x) : d\<close>\<close>
  "num_or d x = (case x of None \<Rightarrow> d | Some v \<Rightarrow> v)"

definition truthy_or :: "real \<Rightarrow> real option \<Rightarrow> real" where
  \<comment> \<open>\<^verbatim>\<open>x || d\<close>: an absent entry and \<open>0\<close> are both falsy\<close>
  "truthy_or d x = (case x of None \<Rightarrow> d | Some v \<Rightarrow> if v = 0 then d else v)"

definition nullish_or :: "real \<Rightarrow> real option \<Rightarrow> real" where
  \<comment> \<open>\<^verbatim>\<open>x ?? d\<close>\<close>
  "nullish_or d x = (case x of None \<Rightarrow> d | Some v \<Rightarrow> v)"

text \<open>
  A configuration entry that the source still tests with \<^verbatim>\<open>Number.isFinite\<close> after
  defaulting it: absent, a finite number, or any value whose \<^verbatim>\<open>Number(..)\<close> is not finite.
\<close>

datatype jsnum = Undefined | Num real | NotFinite

definition nullish_js :: "real \<Rightarrow> jsnum \<Rightarrow> jsnum" where
  \<comment> \<open>\<^verbatim>\<open>x ?? d\<close>\<close>
  "nullish_js d x = (case x of Undefined \<Rightarrow> Num d | _ \<Rightarrow> x)"

definition not_false :: "bool option \<Rightarrow> bool" where
  \<comment> \<open>\<^verbatim>\<open>x !== false\<close>\<close>
  "not_false x = (x \<noteq> Some False)"

definition clamp :: "real \<Rightarrow> real \<Rightarrow> real \<Rightarrow> real" where
  \<comment> \<open>\<^verbatim>\<open>clamp = (value, min, max) => Math.max(min, Math.min(max, value))\<close>\<close>
  "clamp v lo hi = max lo (min hi v)"

text \<open>The entries of \<^verbatim>\<open>config.behavior\<close> that the modelled methods read.\<close>

record behavior =
  chatCooldown :: "real option"
  socialRoundInterval :: "real option"
  perPlayerChatCooldown :: "real option"
  socialMaxDistance :: "real option"
  autoChatCooldownMs :: "real option"
  autonomousDecisionCooldownMs :: "real option"
  followGlobalCooldownMs :: "real option"
  followStickMs :: "real option"
  autonomousFollowEnabled :: "bool option"
  autonomousSurvivalEnabled :: "bool option"
  autoChatHistoryMs :: "real option"
  autoChatHistorySize :: "real option"
  survivalStepCooldownMs :: "real option"
  survivalActionCooldownMs :: "real option"
  speechMinDelayMs :: "real option"
  speechMaxDelayMs :: "real option"
  speechBusyDelayMs :: "real option"
  speechDirectMinDelayMs :: "real option"
  speechDirectMaxDelayMs :: "real option"
  speechEventMinDelayMs :: "real option"
  speechEventMaxDelayMs :: "real option"
  speechBurstWindowMs :: "real option"
  speechBurstMax :: "real option"
  speechDirectBurstMax :: "real option"
  speechPulseIntervalMs :: "real option"
  speechPulseChanceFocused :: "real option"
  speechPulseChanceNeutral :: "real option"
  speechPulseChanceChatty :: "real option"
  speechAutonomousMinIntervalMs :: "real option"
  speechAutonomousMaxIntervalMs :: "real option"
  speechEnergyRecoverPer10s :: "real option"
  speechEnergyNightPenalty :: "real option"
  speechEnergyDecayOnTalk :: jsnum
  speechEnergyDecayOnDirect :: jsnum
  speechEnergyDecayOnEvent :: jsnum
  scanRadiusDrops :: "real option"
  autoPickupDrops :: "bool option"
  wanderRange :: "real option"

definition baseConfig :: behavior where
  \<comment> \<open>the \<^verbatim>\<open>behavior\<close> block of \<^verbatim>\<open>baseConfig\<close> in the configuration module\<close>
  "baseConfig = \<lparr>
     chatCooldown = Some 5000,
     socialRoundInterval = Some 500000,
     perPlayerChatCooldown = Some 300000,
     socialMaxDistance = Some 32,
     autoChatCooldownMs = Some 0,
     autonomousDecisionCooldownMs = Some 20000,
     followGlobalCooldownMs = Some 30000,
     followStickMs = Some 90000,
     autonomousFollowEnabled = Some False,
     autonomousSurvivalEnabled = Some True,
     autoChatHistoryMs = Some 600000,
     autoChatHistorySize = Some 20,
     survivalStepCooldownMs = Some 10000,
     survivalActionCooldownMs = Some 15000,
     speechMinDelayMs = Some 600,
     speechMaxDelayMs = Some 2500,
     speechBusyDelayMs = Some 6000,
     speechDirectMinDelayMs = Some 0,
     speechDirectMaxDelayMs = Some 400,
     speechEventMinDelayMs = Some 80,
     speechEventMaxDelayMs = Some 600,
     speechBurstWindowMs = Some 20000,
     speechBurstMax = Some 3,
     speechDirectBurstMax = Some 6,
     speechPulseIntervalMs = Some 60000,
     speechPulseChanceFocused = Some (3 / 100),
     speechPulseChanceNeutral = Some (8 / 100),
     speechPulseChanceChatty = Some (18 / 100),
     speechAutonomousMinIntervalMs = Some 240000,
     speechAutonomousMaxIntervalMs = Some 420000,
     speechEnergyRecoverPer10s = Some 2,
     speechEnergyNightPenalty = Some 1,
     speechEnergyDecayOnTalk = Num 8,
     speechEnergyDecayOnDirect = Num 5,
     speechEnergyDecayOnEvent = Num 4,
     scanRadiusDrops = Some 18,
     autoPickupDrops = Some True,
     wanderRange = Some 28 \<rparr>"

section \<open>What the agent observes\<close>

text \<open>
  An inventory stack as the inventory interface reports it. \<open>item_food = 0\<close> stands
  for a stack without a positive \<^verbatim>\<open>food\<close> property.
\<close>

record item =
  item_name :: string
  item_count :: nat
  item_food :: nat

text \<open>
  The part of the \<^verbatim>\<open>bot\<close> object the modelled methods read: \<open>registry\<close> lists the
  item names known to \<^verbatim>\<open>bot.registry.itemsByName\<close>, \<open>isMoving\<close> is
  \<^verbatim>\<open>bot.pathfinder.isMoving()\<close>, and \<open>time_isDay\<close> is \<open>None\<close> when \<^verbatim>\<open>bot.time\<close>
  is missing.
\<close>

record bot =
  username :: string
  health :: "real option"
  food :: "real option"
  inventory :: "item list"
  registry :: "string list"
  isMoving :: bool
  time_isDay :: "bool option"

section \<open>The progression planner: SurvivalDirector\<close>

record survival_director =
  lastStepAt :: real
  lastActionAt :: real

definition new_survival_director :: survival_director where
  "new_survival_director = \<lparr> lastStepAt = 0, lastActionAt = 0 \<rparr>"

text \<open>The task descriptors handed to \<^verbatim>\<open>taskManager.startTask\<close>.\<close>

datatype task =
  GatherWood real "string list option"
  | Mine string real
  | Farm "string list option"

text \<open>The one thing a call of \<^verbatim>\<open>step\<close> does when it acts.\<close>

datatype survival_action =
  Eat string
  | CraftItem string nat
  | UseFurnace string nat
  | StartTask task

definition shouldStep :: "behavior \<Rightarrow> real \<Rightarrow> survival_director \<Rightarrow> bool \<times> survival_director" where
  "shouldStep cfg now d =
     (let cooldownMs = num_or 10000 (survivalStepCooldownMs cfg) in
      if now - lastStepAt d < cooldownMs then (False, d)
      else (True, d\<lparr>lastStepAt := now\<rparr>))"

definition canAct :: "behavior \<Rightarrow> real \<Rightarrow> survival_director \<Rightarrow> bool" where
  "canAct cfg now d =
     (let cooldownMs = num_or 15000 (survivalActionCooldownMs cfg) in
      now - lastActionAt d \<ge> cooldownMs)"

definition markAct :: "real \<Rightarrow> survival_director \<Rightarrow> survival_director" where
  "markAct now d = d\<lparr>lastActionAt := now\<rparr>"

definition countItem :: "bot \<Rightarrow> string \<Rightarrow> nat" where
  \<comment> \<open>\<^verbatim>\<open>bot.inventory.count(item.id)\<close> adds up the stacks of that item type\<close>
  "countItem b nm =
     (if nm = [] then 0
      else if nm \<notin> set (registry b) then 0
      else sum_list (map item_count (filter (\<lambda>i. item_name i = nm) (inventory b))))"

definition hasItem :: "bot \<Rightarrow> string \<Rightarrow> bool" where
  "hasItem b nm = (countItem b nm > 0)"

definition countBySuffix :: "bot \<Rightarrow> string list \<Rightarrow> nat" where
  "countBySuffix b sfxs =
     sum_list (map item_count
       (filter (\<lambda>i. item_name i \<noteq> [] \<and> list_ex (\<lambda>s. suffix s (item_name i)) sfxs)
          (inventory b)))"

definition getFoodItem :: "bot \<Rightarrow> item option" where
  \<comment> \<open>the stable sort by descending \<^verbatim>\<open>food\<close> puts the first stack of greatest food value in front\<close>
  "getFoodItem b =
     (let foods = filter (\<lambda>i. item_food i > 0) (inventory b) in
      if foods = [] then None
      else Some (hd (sort_key (\<lambda>i. - int (item_food i)) foods)))"

definition wood_count :: "bot \<Rightarrow> nat" where
  \<comment> \<open>the value of \<^verbatim>\<open>woodCount\<close> in \<^verbatim>\<open>step\<close>\<close>
  "wood_count b =
     countBySuffix b [''_log'', ''_wood'', ''_stem'', ''_hyphae''] + countItem b ''bamboo_block''"

definition plank_count :: "bot \<Rightarrow> nat" where
  \<comment> \<open>the value of \<^verbatim>\<open>plankCount\<close> in \<^verbatim>\<open>step\<close>\<close>
  "plank_count b = countBySuffix b [''_planks'', ''bamboo_planks'']"

definition progression :: "real \<Rightarrow> bot \<Rightarrow> survival_action option" where
  \<comment> \<open>the priority chain of \<^verbatim>\<open>step\<close> below the eating branch, in the order of the source;
     \<open>foodLevel\<close> is the local \<^verbatim>\<open>food\<close> of \<^verbatim>\<open>step\<close>\<close>
  "progression foodLevel b =
     (let woodCount = wood_count b;
          plankCount = plank_count b;
          hasCraftingTable = hasItem b ''crafting_table'';
          hasWoodPickaxe = hasItem b ''wooden_pickaxe'';
          hasStonePickaxe = hasItem b ''stone_pickaxe'';
          hasIronPickaxe = hasItem b ''iron_pickaxe''
      in
      if \<not> hasCraftingTable \<and> (woodCount > 0 \<or> plankCount > 0)
        then Some (CraftItem ''crafting_table'' 1)
      else if woodCount + plankCount < 12
        then Some (StartTask (GatherWood 24 None))
      else if \<not> hasWoodPickaxe \<and> plankCount \<ge> 3
        then Some (CraftItem ''wooden_pickaxe'' 1)
      else
       (let cobbleCount = countItem b ''cobblestone'' in
        if hasWoodPickaxe \<and> \<not> hasStonePickaxe \<and> cobbleCount < 3
          then Some (StartTask (Mine ''stone'' 12))
        else if hasWoodPickaxe \<and> \<not> hasStonePickaxe \<and> cobbleCount \<ge> 3
          then Some (CraftItem ''stone_pickaxe'' 1)
        else
         (let rawIron = countItem b ''raw_iron'';
              ironOre = countItem b ''iron_ore'';
              ironIngot = countItem b ''iron_ingot''
          in
          if hasStonePickaxe \<and> \<not> hasIronPickaxe \<and> rawIron + ironOre + ironIngot < 6
            then Some (StartTask (Mine ''iron_ore'' 6))
          else if rawIron > 0
            then Some (UseFurnace ''raw_iron'' (min rawIron 8))
          else if \<not> hasIronPickaxe \<and> ironIngot \<ge> 3
            then Some (CraftItem ''iron_pickaxe'' 1)
          else if foodLevel < 14 \<and> countBySuffix b [''_seeds''] > 0
            then Some (StartTask (Farm None))
          else None)))"

definition decide :: "bot \<Rightarrow> survival_action option" where
  \<comment> \<open>the body of \<^verbatim>\<open>step\<close> below its three gates: the eating branch, then the chain\<close>
  "decide b =
     (let health = num_or 20 (health b);
          food = num_or 20 (food b);
          foodItem = (if health \<le> 10 \<or> food \<le> 12 then getFoodItem b else None)
      in
      case foodItem of
        Some fi \<Rightarrow> Some (Eat (item_name fi))
      | None \<Rightarrow> progression food b)"

text \<open>
  \<^verbatim>\<open>SurvivalDirector.step\<close>: \<open>busy\<close> is \<^verbatim>\<open>taskManager.isBusy()\<close>, \<open>now\<close> the clock
  at the gates and \<open>now'\<close> the clock when the chosen action has been carried out and
  \<^verbatim>\<open>markAct\<close> runs. The result is the action taken (\<open>None\<close> when \<^verbatim>\<open>step\<close> returns
  \<^verbatim>\<open>false\<close>) and the director afterwards.
\<close>

definition step :: "behavior \<Rightarrow> bool \<Rightarrow> real \<Rightarrow> real \<Rightarrow> bot \<Rightarrow> survival_director
    \<Rightarrow> survival_action option \<times> survival_director" where
  "step cfg busy now now' b d =
     (case shouldStep cfg now d of
        (False, d1) \<Rightarrow> (None, d1)
      | (True, d1) \<Rightarrow>
          if \<not> canAct cfg now d1 then (None, d1)
          else if busy then (None, d1)
          else (case decide b of
                  None \<Rightarrow> (None, d1)
                | Some a \<Rightarrow> (Some a, markAct now' d1)))"

section \<open>The speech throttle: SpeechManager\<close>

text \<open>
  A nearby player as the world scan reports it, and the scan itself. \<open>nearbyDrops\<close> is
  the length of the scan's list of drops.
\<close>

record player =
  p_name :: string
  p_distance :: "real option"
  p_hasEntity :: bool

record scan =
  players :: "player list"
  nearbyDrops :: nat

record history_entry =
  normalized :: string
  timestamp :: real

record queue_entry =
  q_text :: string
  q_reason :: string
  q_player :: "string option"
  q_delayMs :: real

text \<open>
  The throttle. Besides the fields of the class, \<open>inFlight\<close> is the entry that the
  drain of the queue has taken out and is sleeping on, and \<open>chatLog\<close> lists the texts
  handed to \<^verbatim>\<open>bot.chat\<close>, in order.
\<close>

record speech_manager =
  sm_context :: "scan option"
  queue :: "queue_entry list"
  processing :: bool
  inFlight :: "queue_entry option"
  chatLog :: "string list"
  socialEnergy :: real
  lastEnergyUpdateAt :: real
  sm_lastSpokeAt :: real
  lastPulseAt :: real
  nextAutonomousAt :: real
  messageHistory :: "history_entry list"
  messageTimestamps :: "real list"
  lastByPlayer :: "string \<rightharpoonup> real"

definition truthy_name :: "string option \<Rightarrow> bool" where
  \<comment> \<open>a player argument is truthy unless it is \<^verbatim>\<open>null\<close> or the empty string\<close>
  "truthy_name p = (case p of None \<Rightarrow> False | Some n \<Rightarrow> n \<noteq> [])"

definition getAutonomousIntervalMs :: "behavior \<Rightarrow> real \<Rightarrow> real" where
  \<comment> \<open>\<open>rnd\<close> is the value of \<^verbatim>\<open>Math.random()\<close>\<close>
  "getAutonomousIntervalMs cfg rnd =
     (let minMs = num_or 240000 (speechAutonomousMinIntervalMs cfg);
          maxMs = num_or 420000 (speechAutonomousMaxIntervalMs cfg);
          safeMin = max 10000 minMs;
          safeMax = max safeMin maxMs
      in safeMin + rnd * (safeMax - safeMin))"

definition new_speech_manager :: "behavior \<Rightarrow> real \<Rightarrow> real \<Rightarrow> speech_manager" where
  \<comment> \<open>the constructor, run at clock reading \<open>now\<close>\<close>
  "new_speech_manager cfg now rnd = \<lparr>
     sm_context = None,
     queue = [],
     processing = False,
     inFlight = None,
     chatLog = [],
     socialEnergy = 55,
     lastEnergyUpdateAt = now,
     sm_lastSpokeAt = 0,
     lastPulseAt = 0,
     nextAutonomousAt = now + getAutonomousIntervalMs cfg rnd,
     messageHistory = [],
     messageTimestamps = [],
     lastByPlayer = Map.empty \<rparr>"

definition recoverEnergy :: "behavior \<Rightarrow> bot \<Rightarrow> real \<Rightarrow> speech_manager \<Rightarrow> speech_manager" where
  "recoverEnergy cfg b now s =
     (let stepMs = 10000 in
      if now - lastEnergyUpdateAt s < stepMs then s
      else
       (let steps = real_of_int \<lfloor>(now - lastEnergyUpdateAt s) / stepMs\<rfloor>;
            recoverPerStep = num_or 2 (speechEnergyRecoverPer10s cfg);
            s1 = s\<lparr>socialEnergy := clamp (socialEnergy s + steps * recoverPerStep) 0 100\<rparr>;
            s2 = (if time_isDay b = Some False
                  then (let nightPenalty = num_or 1 (speechEnergyNightPenalty cfg) in
                        s1\<lparr>socialEnergy := clamp (socialEnergy s1 - steps * nightPenalty) 0 100\<rparr>)
                  else s1)
        in s2\<lparr>lastEnergyUpdateAt := now\<rparr>))"

definition updateContext :: "behavior \<Rightarrow> bot \<Rightarrow> real \<Rightarrow> scan \<Rightarrow> speech_manager \<Rightarrow> speech_manager" where
  "updateContext cfg b now sc s = recoverEnergy cfg b now (s\<lparr>sm_context := Some sc\<rparr>)"

definition getMode :: "speech_manager \<Rightarrow> string" where
  "getMode s =
     (if socialEnergy s \<le> 30 then ''focused''
      else if socialEnergy s \<ge> 70 then ''chatty''
      else ''neutral'')"

definition getNearbyPlayerCount :: "speech_manager \<Rightarrow> nat" where
  "getNearbyPlayerCount s =
     (let ps = (case sm_context s of None \<Rightarrow> [] | Some sc \<Rightarrow> players sc) in
      length (filter p_hasEntity ps))"

definition isAutonomousReason :: "string \<Rightarrow> bool" where
  "isAutonomousReason reason =
     (reason = ''autonomous'' \<or> reason = ''pulse'' \<or> reason = ''social'')"

text \<open>
  \<^verbatim>\<open>normalizeText\<close> lower-cases the text, replaces every run of characters outside
  \<^verbatim>\<open>[a-z0-9]\<close> and the Cyrillic letters by one blank, and trims. Lower-casing and the
  case-insensitive character class follow the runtime's Unicode tables, so the throttle
  below takes the normaliser as its parameter \<open>nrm\<close>. \<open>normalizeText_ascii\<close> is the
  method on texts of ASCII characters.
\<close>

definition lower_ascii :: "char \<Rightarrow> char" where
  "lower_ascii c =
     (if CHR ''A'' \<le> c \<and> c \<le> CHR ''Z'' then char_of (of_char c + (32::nat)) else c)"

definition kept_ascii :: "char \<Rightarrow> bool" where
  "kept_ascii c = ((CHR ''a'' \<le> c \<and> c \<le> CHR ''z'') \<or> (CHR ''0'' \<le> c \<and> c \<le> CHR ''9''))"

fun squeeze_ascii :: "bool \<Rightarrow> string \<Rightarrow> string" where
  "squeeze_ascii in_run [] = []"
| "squeeze_ascii in_run (c # cs) =
     (if kept_ascii c then c # squeeze_ascii False cs
      else if in_run then squeeze_ascii True cs
      else CHR '' '' # squeeze_ascii True cs)"

definition trim_blanks :: "string \<Rightarrow> string" where
  "trim_blanks t =
     rev (dropWhile (\<lambda>c. c = CHR '' '') (rev (dropWhile (\<lambda>c. c = CHR '' '') t)))"

definition normalizeText_ascii :: "string \<Rightarrow> string" where
  "normalizeText_ascii t = trim_blanks (squeeze_ascii False (map lower_ascii t))"

definition isDuplicate :: "(string \<Rightarrow> string) \<Rightarrow> behavior \<Rightarrow> real \<Rightarrow> string \<Rightarrow> speech_manager
    \<Rightarrow> bool \<times> speech_manager" where
  "isDuplicate nrm cfg now text s =
     (let nt = nrm text in
      if nt = [] then (True, s)
      else
       (let historyMs = truthy_or 0 (autoChatHistoryMs cfg) in
        if historyMs \<le> 0 then (False, s)
        else
         (let kept = filter (\<lambda>it. now - timestamp it \<le> historyMs) (messageHistory s) in
          (list_ex (\<lambda>it. normalized it = nt) kept, s\<lparr>messageHistory := kept\<rparr>))))"

text \<open>
  \<^verbatim>\<open>recordMessage\<close>, statement group by statement group: the history push with its
  size cap, the burst-window bookkeeping, the per-player timestamp, the rescheduling of the
  next autonomous utterance (\<open>rnd\<close> is the \<^verbatim>\<open>Math.random()\<close> drawn there), and the
  energy decay.
\<close>

definition pushHistory :: "(string \<Rightarrow> string) \<Rightarrow> behavior \<Rightarrow> real \<Rightarrow> string
    \<Rightarrow> speech_manager \<Rightarrow> speech_manager" where
  "pushHistory nrm cfg now text s =
     (let nt = nrm text in
      if nt \<noteq> []
      then (let h = messageHistory s @ [\<lparr> normalized = nt, timestamp = now \<rparr>];
                maxSize = num_or 20 (autoChatHistorySize cfg)
            in s\<lparr>messageHistory :=
                  (if real (length h) > maxSize
                   then drop (nat \<lfloor>real (length h) - maxSize\<rfloor>) h else h)\<rparr>)
      else s)"

definition pushTimestamp :: "behavior \<Rightarrow> real \<Rightarrow> speech_manager \<Rightarrow> speech_manager" where
  "pushTimestamp cfg now s =
     (let burstWindowMs = truthy_or 20000 (speechBurstWindowMs cfg) in
      s\<lparr>sm_lastSpokeAt := now,
        messageTimestamps :=
          filter (\<lambda>ts. now - ts \<le> burstWindowMs) (messageTimestamps s @ [now])\<rparr>)"

definition notePlayer :: "real \<Rightarrow> string option \<Rightarrow> speech_manager \<Rightarrow> speech_manager" where
  "notePlayer now plr s =
     (if truthy_name plr then s\<lparr>lastByPlayer := (lastByPlayer s)(the plr \<mapsto> now)\<rparr> else s)"

definition scheduleAutonomous :: "behavior \<Rightarrow> real \<Rightarrow> real \<Rightarrow> string
    \<Rightarrow> speech_manager \<Rightarrow> speech_manager" where
  "scheduleAutonomous cfg now rnd reason s =
     (if isAutonomousReason reason
      then s\<lparr>nextAutonomousAt := now + getAutonomousIntervalMs cfg rnd\<rparr> else s)"

definition decayEnergy :: "behavior \<Rightarrow> string \<Rightarrow> speech_manager \<Rightarrow> speech_manager" where
  "decayEnergy cfg reason s =
     (let decay = (if reason = ''direct'' then nullish_js 5 (speechEnergyDecayOnDirect cfg)
                   else if reason = ''event'' \<or> reason = ''danger'' \<or> reason = ''gift''
                     then nullish_js 4 (speechEnergyDecayOnEvent cfg)
                   else nullish_js 8 (speechEnergyDecayOnTalk cfg))
      in case decay of
           Num dv \<Rightarrow> s\<lparr>socialEnergy := clamp (socialEnergy s - dv) 0 100\<rparr>
         | _ \<Rightarrow> s)"

definition recordMessage :: "(string \<Rightarrow> string) \<Rightarrow> behavior \<Rightarrow> real \<Rightarrow> real
    \<Rightarrow> string \<Rightarrow> string option \<Rightarrow> string \<Rightarrow> speech_manager \<Rightarrow> speech_manager" where
  "recordMessage nrm cfg now rnd text plr reason s =
     decayEnergy cfg reason
       (scheduleAutonomous cfg now rnd reason
         (notePlayer now plr
           (pushTimestamp cfg now
             (pushHistory nrm cfg now text s))))"

definition canBurst :: "behavior \<Rightarrow> real \<Rightarrow> string \<Rightarrow> speech_manager \<Rightarrow> bool \<times> speech_manager" where
  "canBurst cfg now reason s =
     (let burstWindowMs = truthy_or 20000 (speechBurstWindowMs cfg);
          kept = filter (\<lambda>ts. now - ts \<le> burstWindowMs) (messageTimestamps s);
          maxBurst = (if reason = ''direct'' then truthy_or 6 (speechDirectBurstMax cfg)
                      else truthy_or 3 (speechBurstMax cfg))
      in (real (length kept) < maxBurst, s\<lparr>messageTimestamps := kept\<rparr>))"

definition shouldPulse :: "behavior \<Rightarrow> real \<Rightarrow> speech_manager \<Rightarrow> bool \<times> speech_manager" where
  "shouldPulse cfg now s =
     (if now < nextAutonomousAt s then (False, s)
      else
       (let intervalMs = truthy_or 60000 (speechPulseIntervalMs cfg) in
        if now - lastPulseAt s < intervalMs then (False, s)
        else (True, s\<lparr>lastPulseAt := now\<rparr>)))"

definition ambientAllowed :: "behavior \<Rightarrow> real \<Rightarrow> real \<Rightarrow> string option \<Rightarrow> speech_manager \<Rightarrow> bool" where
  \<comment> \<open>the tail of \<^verbatim>\<open>shouldAllow\<close> for a reason that is neither urgent nor autonomous;
     \<open>rnd\<close> is the value of \<^verbatim>\<open>Math.random()\<close>\<close>
  "ambientAllowed cfg now rnd plr s =
     (let cooldownMs = truthy_or 0 (autoChatCooldownMs cfg) in
      if cooldownMs > 0 \<and> now - sm_lastSpokeAt s < cooldownMs then False
      else if truthy_name plr
              \<and> (let perPlayerCooldown = truthy_or 0 (perPlayerChatCooldown cfg);
                      last = (case lastByPlayer s (the plr) of None \<Rightarrow> 0 | Some t \<Rightarrow> t)
                  in perPlayerCooldown > 0 \<and> now - last < perPlayerCooldown)
        then False
      else
       (let mode = getMode s;
            chanceFocused = nullish_or (3 / 100) (speechPulseChanceFocused cfg);
            chanceNeutral = nullish_or (8 / 100) (speechPulseChanceNeutral cfg);
            chanceChatty = nullish_or (18 / 100) (speechPulseChanceChatty cfg);
            chance0 = (if mode = ''focused'' then chanceFocused
                       else if mode = ''chatty'' then chanceChatty else chanceNeutral);
            nearby = getNearbyPlayerCount s;
            chance1 = (if nearby = 0 then chance0 * (4 / 10) else chance0);
            chance2 = (if nearby \<ge> 3 then chance1 * (6 / 10) else chance1)
        in \<not> rnd > chance2))"

definition shouldAllow :: "(string \<Rightarrow> string) \<Rightarrow> behavior \<Rightarrow> real \<Rightarrow> real
    \<Rightarrow> string \<Rightarrow> string \<Rightarrow> string option \<Rightarrow> speech_manager \<Rightarrow> bool \<times> speech_manager" where
  "shouldAllow nrm cfg now rnd reason text plr s =
     (if text = [] then (False, s)
      else
       (let (dup, s1) = (if reason \<noteq> ''direct'' \<and> reason \<noteq> ''mention''
                         then isDuplicate nrm cfg now text s else (False, s)) in
        if dup then (False, s1)
        else
         (let (burstOk, s2) = (if reason \<noteq> ''direct'' \<and> reason \<noteq> ''mention''
                               then canBurst cfg now reason s1 else (True, s1)) in
          if \<not> burstOk then (False, s2)
          else if reason = ''direct'' \<or> reason = ''mention'' \<or> reason = ''event''
                  \<or> reason = ''danger'' \<or> reason = ''gift''
            then (True, s2)
          else if isAutonomousReason reason
            then (if now < nextAutonomousAt s2 then (False, s2) else (True, s2))
          else (ambientAllowed cfg now rnd plr s2, s2))))"

text \<open>
  \<^verbatim>\<open>getDelayMs\<close>: \<open>rnd\<close> is the value of \<^verbatim>\<open>Math.random()\<close>, \<open>moving\<close> is
  \<^verbatim>\<open>bot.pathfinder.isMoving()\<close> and \<open>taskBusy\<close> is \<^verbatim>\<open>planner.taskManager.isBusy()\<close>.
\<close>

definition getDelayMs :: "behavior \<Rightarrow> real \<Rightarrow> bool \<Rightarrow> bool \<Rightarrow> string \<Rightarrow> real" where
  "getDelayMs cfg rnd moving taskBusy reason =
     (let minDelay = num_or 600 (speechMinDelayMs cfg);
          maxDelay = num_or 2500 (speechMaxDelayMs cfg);
          busyDelay = num_or 6000 (speechBusyDelayMs cfg);
          eventMin = num_or 80 (speechEventMinDelayMs cfg);
          eventMax = num_or 600 (speechEventMaxDelayMs cfg)
      in
      if reason = ''danger'' \<or> reason = ''event'' \<or> reason = ''gift''
        then eventMin + rnd * (eventMax - eventMin)
      else
       (let direct = (reason = ''direct'' \<or> reason = ''mention'');
            baseMin = (if direct then num_or minDelay (speechDirectMinDelayMs cfg) else minDelay);
            baseMax = (if direct then num_or maxDelay (speechDirectMaxDelayMs cfg) else maxDelay)
        in
        if moving \<or> taskBusy
          then (let boosted = max baseMax busyDelay in baseMin + rnd * (boosted - baseMin))
        else baseMin + rnd * (baseMax - baseMin)))"

text \<open>
  The values a call of \<^verbatim>\<open>enqueue\<close> reads from outside the throttle: the clock, the
  random draws (admission, delay, and the interval drawn when an emission is recorded) and
  the two busy flags.
\<close>

record speech_env =
  e_now :: real
  e_rndAllow :: real
  e_rndDelay :: real
  e_rndNext :: real
  e_moving :: bool
  e_taskBusy :: bool

text \<open>
  \<^verbatim>\<open>processQueue\<close>. The loop runs without interruption until it reaches an entry with
  a positive delay, on which it sleeps, or the queue is empty: an entry without delay is
  sent to the chat and recorded at once (the agent is connected, so \<^verbatim>\<open>bot.chat\<close>
  exists). \<open>drainQueue\<close> is that run over the entries
  queued; \<open>processQueue\<close> is a call of the method, which returns at once while a drain
  is under way; \<open>resumeQueue\<close> is the drain waking up at clock reading \<open>now\<close>: it
  sends and records the entry it slept on and runs on.
\<close>

definition sendEntry :: "(string \<Rightarrow> string) \<Rightarrow> behavior \<Rightarrow> real \<Rightarrow> real \<Rightarrow> queue_entry
    \<Rightarrow> speech_manager \<Rightarrow> speech_manager" where
  \<comment> \<open>\<^verbatim>\<open>this.bot.chat(item.text); this.recordMessage(item.text, item.player, item.reason)\<close>\<close>
  "sendEntry nrm cfg now rnd it s =
     recordMessage nrm cfg now rnd (q_text it) (q_player it) (q_reason it)
       (s\<lparr>chatLog := chatLog s @ [q_text it]\<rparr>)"

fun drainQueue :: "(string \<Rightarrow> string) \<Rightarrow> behavior \<Rightarrow> real \<Rightarrow> real \<Rightarrow> queue_entry list
    \<Rightarrow> speech_manager \<Rightarrow> speech_manager" where
  "drainQueue nrm cfg now rnd [] s = s\<lparr>queue := [], processing := False\<rparr>"
| "drainQueue nrm cfg now rnd (it # rest) s =
     (if q_delayMs it > 0 then s\<lparr>queue := rest, inFlight := Some it\<rparr>
      else drainQueue nrm cfg now rnd rest (sendEntry nrm cfg now rnd it (s\<lparr>queue := rest\<rparr>)))"

definition processQueue :: "(string \<Rightarrow> string) \<Rightarrow> behavior \<Rightarrow> real \<Rightarrow> real
    \<Rightarrow> speech_manager \<Rightarrow> speech_manager" where
  "processQueue nrm cfg now rnd s =
     (if processing s then s
      else drainQueue nrm cfg now rnd (queue s) (s\<lparr>processing := True\<rparr>))"

definition resumeQueue :: "(string \<Rightarrow> string) \<Rightarrow> behavior \<Rightarrow> real \<Rightarrow> real
    \<Rightarrow> speech_manager \<Rightarrow> speech_manager" where
  "resumeQueue nrm cfg now rnd s =
     (case inFlight s of
        None \<Rightarrow> s
      | Some it \<Rightarrow>
          drainQueue nrm cfg now rnd (queue s)
            (sendEntry nrm cfg now rnd it (s\<lparr>inFlight := None\<rparr>)))"

definition enqueue :: "(string \<Rightarrow> string) \<Rightarrow> behavior \<Rightarrow> speech_env
    \<Rightarrow> string \<Rightarrow> string \<Rightarrow> string option \<Rightarrow> speech_manager \<Rightarrow> bool \<times> speech_manager" where
  \<comment> \<open>called with \<^verbatim>\<open>{reason, player}\<close>; the entry is queued and \<^verbatim>\<open>processQueue\<close> is
     called before the method returns\<close>
  "enqueue nrm cfg env text reason0 plr0 s =
     (let reason = (if reason0 = [] then ''autonomous'' else reason0);
          plr = (if truthy_name plr0 then plr0 else None)
      in
      case shouldAllow nrm cfg (e_now env) (e_rndAllow env) reason text plr s of
        (False, s1) \<Rightarrow> (False, s1)
      | (True, s1) \<Rightarrow>
         (let delayMs = getDelayMs cfg (e_rndDelay env) (e_moving env) (e_taskBusy env) reason;
              entry = \<lparr> q_text = text, q_reason = reason, q_player = plr, q_delayMs = delayMs \<rparr>;
              s2 = (if reason = ''direct'' \<or> reason = ''mention'' \<or> reason = ''danger''
                        \<or> reason = ''event'' \<or> reason = ''gift''
                    then s1\<lparr>queue := entry # queue s1\<rparr>
                    else s1\<lparr>queue := queue s1 @ [entry]\<rparr>)
          in (True, processQueue nrm cfg (e_now env) (e_rndNext env) s2)))"

text \<open>
  The two operations that change the social energy, as they reach the throttle over time:
  a context refresh (with the agent as observed then) and an emission.
\<close>

datatype energy_op =
  Refresh bot real scan
  | Emission real real string "string option" string

fun energy_run :: "(string \<Rightarrow> string) \<Rightarrow> behavior \<Rightarrow> speech_manager \<Rightarrow> energy_op list
    \<Rightarrow> speech_manager" where
  "energy_run nrm cfg s [] = s"
| "energy_run nrm cfg s (Refresh b now sc # ops) =
     energy_run nrm cfg (updateContext cfg b now sc s) ops"
| "energy_run nrm cfg s (Emission now rnd text plr reason # ops) =
     energy_run nrm cfg (recordMessage nrm cfg now rnd text plr reason s) ops"

section \<open>The decision orchestrator: Planner\<close>

datatype op_mode = Manual | Autonomous | Survival

record follow_state =
  target :: "string option"
  since :: real
  stickUntil :: real
  lastAny :: real

record planner =
  mode :: op_mode
  lastLLMAt :: real
  lastSocialChatAt :: real
  socialIndex :: nat
  lastSpokeAt :: "string \<rightharpoonup> real"
  lastAutoChatAt :: real
  lastAutonomousDecisionAt :: real
  followState :: follow_state
  lastScanPlayers :: "player list"

definition new_planner :: "op_mode \<Rightarrow> planner" where
  \<comment> \<open>the constructor; the argument is \<^verbatim>\<open>config.behavior.defaultMode\<close>\<close>
  "new_planner m = \<lparr>
     mode = m,
     lastLLMAt = 0,
     lastSocialChatAt = 0,
     socialIndex = 0,
     lastSpokeAt = Map.empty,
     lastAutoChatAt = 0,
     lastAutonomousDecisionAt = 0,
     followState = \<lparr> target = None, since = 0, stickUntil = 0, lastAny = 0 \<rparr>,
     lastScanPlayers = [] \<rparr>"

definition shouldQueryLLM :: "behavior \<Rightarrow> real \<Rightarrow> bool \<Rightarrow> planner \<Rightarrow> bool \<times> planner" where
  "shouldQueryLLM cfg now force p =
     (let cooldownMs = truthy_or 0 (chatCooldown cfg) in
      if force then (True, p\<lparr>lastLLMAt := now\<rparr>)
      else if cooldownMs \<le> 0 then (True, p)
      else if now - lastLLMAt p < cooldownMs then (False, p)
      else (True, p\<lparr>lastLLMAt := now\<rparr>))"

definition distance_of :: "player \<Rightarrow> real" where
  \<comment> \<open>\<^verbatim>\<open>Number(p.distance || 0)\<close>\<close>
  "distance_of q = (case p_distance q of None \<Rightarrow> 0 | Some v \<Rightarrow> v)"

text \<open>\<open>muted\<close> is the answer of \<^verbatim>\<open>memory.isMuted\<close> at the time of the call.\<close>

definition canAddressPlayer :: "behavior \<Rightarrow> (string \<Rightarrow> bool) \<Rightarrow> real \<Rightarrow> planner \<Rightarrow> string \<Rightarrow> bool" where
  "canAddressPlayer cfg muted now p nm =
     (if nm = [] then False
      else if muted nm then False
      else
       (let cooldownMs = truthy_or 0 (perPlayerChatCooldown cfg) in
        if cooldownMs \<le> 0 then True
        else
         (let last = (case lastSpokeAt p nm of None \<Rightarrow> 0 | Some t \<Rightarrow> t) in
          now - last \<ge> cooldownMs)))"

definition eligiblePlayers :: "behavior \<Rightarrow> (string \<Rightarrow> bool) \<Rightarrow> bot \<Rightarrow> real \<Rightarrow> planner
    \<Rightarrow> player list \<Rightarrow> player list" where
  \<comment> \<open>the value of \<^verbatim>\<open>eligible\<close> in \<^verbatim>\<open>getSocialTarget\<close>\<close>
  "eligiblePlayers cfg muted b now p ps =
     (let maxDistance = num_or 32 (socialMaxDistance cfg);
          candidates = filter (\<lambda>q. p_hasEntity q \<and> distance_of q \<le> maxDistance)
                         (filter (\<lambda>q. p_name q \<noteq> [] \<and> p_name q \<noteq> username b) ps)
      in filter (\<lambda>q. canAddressPlayer cfg muted now p (p_name q)) candidates)"

text \<open>
  \<^verbatim>\<open>getSocialTarget\<close>. The names are ordered by \<^verbatim>\<open>localeCompare\<close>, which follows the
  runtime's collation; \<open>key\<close> maps a name to its collation key, and the stable sort by
  that key is the order \<^verbatim>\<open>sort\<close> produces.
\<close>

definition getSocialTarget :: "(string \<Rightarrow> 'k::linorder) \<Rightarrow> behavior \<Rightarrow> (string \<Rightarrow> bool) \<Rightarrow> bot
    \<Rightarrow> real \<Rightarrow> planner \<Rightarrow> player list \<Rightarrow> player option" where
  "getSocialTarget key cfg muted b now p ps =
     (let intervalMs = truthy_or 0 (socialRoundInterval cfg) in
      if intervalMs \<le> 0 then None
      else if now - lastSocialChatAt p < intervalMs then None
      else
       (let eligible = eligiblePlayers cfg muted b now p ps in
        if eligible = [] then None
        else
         (let ordered = sort_key (\<lambda>q. key (p_name q)) eligible;
              idx = socialIndex p mod length ordered
          in Some (ordered ! idx))))"

definition markSocialSpoke :: "real \<Rightarrow> planner \<Rightarrow> planner" where
  "markSocialSpoke now p = p\<lparr>lastSocialChatAt := now, socialIndex := socialIndex p + 1\<rparr>"

definition markPlayerSpoke :: "real \<Rightarrow> string \<Rightarrow> planner \<Rightarrow> planner" where
  "markPlayerSpoke now nm p =
     (if nm = [] then p else p\<lparr>lastSpokeAt := (lastSpokeAt p)(nm \<mapsto> now)\<rparr>)"

definition markAutoChat :: "real \<Rightarrow> planner \<Rightarrow> planner" where
  "markAutoChat now p = p\<lparr>lastAutoChatAt := now\<rparr>"

definition shouldAutonomousDecision :: "behavior \<Rightarrow> real \<Rightarrow> planner \<Rightarrow> bool \<times> planner" where
  "shouldAutonomousDecision cfg now p =
     (let cooldownMs = truthy_or 0 (autonomousDecisionCooldownMs cfg) in
      if cooldownMs \<le> 0 then (True, p)
      else if now - lastAutonomousDecisionAt p < cooldownMs then (False, p)
      else (True, p\<lparr>lastAutonomousDecisionAt := now\<rparr>))"

definition updateLastScanPlayers :: "player list \<Rightarrow> planner \<Rightarrow> planner" where
  "updateLastScanPlayers ps p = p\<lparr>lastScanPlayers := ps\<rparr>"

definition isTargetVisible :: "planner \<Rightarrow> string \<Rightarrow> bool" where
  "isTargetVisible p nm =
     (if nm = [] then False
      else list_ex (\<lambda>q. p_name q = nm \<and> p_hasEntity q) (lastScanPlayers p))"

text \<open>
  A proposed action and its arguments: those the dispatcher reads, and \<open>arg_text\<close>,
  the text of the speech tools \<^verbatim>\<open>say\<close>, \<^verbatim>\<open>whisper\<close> and \<^verbatim>\<open>reply_to\<close> that the
  backend is offered. A string argument is truthy when it is present and not empty.
\<close>

record action_args =
  arg_name :: "string option"
  arg_target :: "string option"
  arg_target_block :: "string option"
  arg_count :: "real option"
  arg_types :: "string list option"
  arg_wood_types :: "string list option"
  arg_woods :: "string list option"
  arg_crops :: "string list option"
  arg_crop_types :: "string list option"
  arg_targetName :: "string option"
  arg_entity_name :: "string option"
  arg_entity :: "string option"
  arg_player :: "string option"
  arg_text :: "string option"

record action =
  a_name :: string
  a_args :: action_args

fun first_truthy :: "string option list \<Rightarrow> string option" where
  \<comment> \<open>\<^verbatim>\<open>a || b || c\<close> on string arguments\<close>
  "first_truthy [] = None"
| "first_truthy (x # xs) = (if truthy_name x then x else first_truthy xs)"

fun first_present :: "'a option list \<Rightarrow> 'a option" where
  \<comment> \<open>\<^verbatim>\<open>a || b || c\<close> on array arguments: an array is truthy even when empty\<close>
  "first_present [] = None"
| "first_present (x # xs) = (case x of Some v \<Rightarrow> Some v | None \<Rightarrow> first_present xs)"

definition resolveFollowTarget :: "(string \<Rightarrow> bool) \<Rightarrow> action_args \<Rightarrow> planner \<Rightarrow> string option" where
  \<comment> \<open>the comparison with \<^verbatim>\<open>'player'\<close> after lower-casing only concerns ASCII letters\<close>
  "resolveFollowTarget muted args p =
     (let targetName = first_truthy [arg_targetName args, arg_entity_name args,
                                     arg_entity args, arg_name args, arg_player args] in
      if truthy_name targetName \<and> map lower_ascii (the targetName) \<noteq> ''player''
        then targetName
      else
       (let visible = filter (\<lambda>q. p_hasEntity q \<and> \<not> muted (p_name q)) (lastScanPlayers p) in
        if visible = [] then None
        else
         (let nm = p_name (hd (sort_key distance_of visible)) in
          if nm = [] then None else Some nm)))"

definition canFollowTarget :: "behavior \<Rightarrow> real \<Rightarrow> bool \<Rightarrow> string \<Rightarrow> planner \<Rightarrow> bool" where
  \<comment> \<open>\<open>moving\<close> is \<^verbatim>\<open>bot.pathfinder.isMoving()\<close>\<close>
  "canFollowTarget cfg now moving nm p =
     (let globalCooldown = num_or 30000 (followGlobalCooldownMs cfg);
          fs = followState p
      in
      if globalCooldown > 0 \<and> now - lastAny fs < globalCooldown then False
      else if truthy_name (target fs) \<and> nm \<noteq> [] \<and> target fs \<noteq> Some nm
              \<and> isTargetVisible p (the (target fs)) \<and> now < stickUntil fs
        then False
      else if moving \<and> truthy_name (target fs) \<and> nm \<noteq> [] \<and> Some nm \<noteq> target fs
        then False
      else True)"

definition markFollow :: "behavior \<Rightarrow> real \<Rightarrow> string \<Rightarrow> planner \<Rightarrow> planner" where
  "markFollow cfg now nm p =
     (let stickMs = num_or 60000 (followStickMs cfg);
          fs1 = (followState p)\<lparr>lastAny := now\<rparr>;
          fs2 = (if nm \<noteq> []
                 then fs1\<lparr>target := Some nm, since := now, stickUntil := now + stickMs\<rparr>
                 else fs1)
      in p\<lparr>followState := fs2\<rparr>)"

subsection \<open>Dispatching a decision\<close>

text \<open>
  What a step does to the outside world is recorded as a list of effects, in order.
  Speech is offered at two places: the decision's own chat text, and the notice after a
  skill has thrown. \<open>Offer\<close> records a call of \<^verbatim>\<open>speechManager.enqueue\<close> with its
  answer, \<open>BotChat\<close> a call of \<^verbatim>\<open>bot.chat\<close> when no throttle is attached.
\<close>

datatype site = DecisionChat | FailureNotice

datatype effect =
  Survived survival_action
  | Pickup real
  | Wander real
  | Query op_mode
  | Offer site string string "string option" bool
  | BotChat site string
  | Started task
  | Followed string action_args
  | Skill string action_args bool
  | UnknownSkill string

datatype skill_outcome = Returns | Throws | Missing

text \<open>The decision returned by the reasoning backend; its \<^verbatim>\<open>thought\<close> is only logged.\<close>

record decision =
  chat :: "string option"
  actions :: "action list"

text \<open>
  The collaborators of one step, as values: the clock, the agent and the scan as
  observed when the step starts, the mute list, the collation key of
  \<^verbatim>\<open>localeCompare\<close>, the normaliser and the lower-casing of texts, the text of the
  failure notice for an action name, the answers of \<^verbatim>\<open>taskManager.isBusy()\<close> and of
  \<^verbatim>\<open>bot.pathfinder.isMoving()\<close> after the effects so far, the outcome of calling a
  named skill, the readings of the throttle at each offer (indexed by the number of effects
  so far), and the backend's answer if it is asked. The planner's readings of the clock
  within one step are one value. A skill called outside a \<^verbatim>\<open>try\<close> block is taken to
  return.
\<close>

record 'k step_env =
  e_clock :: real
  e_bot :: bot
  e_scan :: scan
  e_muted :: "string \<Rightarrow> bool"
  e_key :: "string \<Rightarrow> 'k"
  e_normalize :: "string \<Rightarrow> string"
  e_lower :: "string \<Rightarrow> string"
  e_notice :: "string \<Rightarrow> string"
  e_isBusy :: "effect list \<Rightarrow> bool"
  e_isMoving :: "effect list \<Rightarrow> bool"
  e_skill :: "string \<Rightarrow> action_args \<Rightarrow> skill_outcome"
  e_speech :: "nat \<Rightarrow> speech_env"
  e_backend :: "decision option"

record agent =
  pl :: planner
  director :: survival_director
  speech :: "speech_manager option"
  effects :: "effect list"

definition emit :: "effect \<Rightarrow> agent \<Rightarrow> agent" where
  "emit ev a = a\<lparr>effects := effects a @ [ev]\<rparr>"

definition say :: "behavior \<Rightarrow> 'k step_env \<Rightarrow> site \<Rightarrow> string \<Rightarrow> string \<Rightarrow> string option
    \<Rightarrow> agent \<Rightarrow> bool \<times> agent" where
  \<comment> \<open>\<^verbatim>\<open>if (this.speechManager) enqueue(..) else this.bot.chat(..)\<close>\<close>
  "say cfg env st txt reason plr a =
     (case speech a of
        None \<Rightarrow> (True, emit (BotChat st txt) a)
      | Some sm \<Rightarrow>
          (case enqueue (e_normalize env) cfg (e_speech env (length (effects a))) txt reason plr sm of
             (sent, sm') \<Rightarrow> (sent, emit (Offer st txt reason plr sent) (a\<lparr>speech := Some sm'\<rparr>))))"

text \<open>
  The branches of the loop over \<^verbatim>\<open>decision.actions\<close>, and one turn of the loop.
  \<open>reason\<close> and \<open>plr\<close> are the options of \<^verbatim>\<open>executeDecision\<close>, an absent reason
  being the empty string.
\<close>

definition startMining :: "action_args \<Rightarrow> agent \<Rightarrow> agent" where
  "startMining args a =
     (case first_truthy [arg_name args, arg_target args, arg_target_block args] of
        None \<Rightarrow> a
      | Some tgt \<Rightarrow> emit (Started (Mine tgt (truthy_or 10 (arg_count args)))) a)"

definition startGatherWood :: "action_args \<Rightarrow> agent \<Rightarrow> agent" where
  "startGatherWood args a =
     emit (Started (GatherWood (num_or 32 (arg_count args))
             (first_present [arg_types args, arg_wood_types args, arg_woods args]))) a"

definition startFarm :: "action_args \<Rightarrow> agent \<Rightarrow> agent" where
  "startFarm args a =
     emit (Started (Farm (first_present [arg_crops args, arg_crop_types args]))) a"

definition followAction :: "behavior \<Rightarrow> 'k step_env \<Rightarrow> string \<Rightarrow> action_args \<Rightarrow> agent \<Rightarrow> agent" where
  "followAction cfg env reason args a =
     (let reason1 = (if reason = [] then ''autonomous'' else reason);
          allowAutoFollow = not_false (autonomousFollowEnabled cfg)
      in
      if reason1 \<noteq> ''direct'' \<and> reason1 \<noteq> ''mention'' \<and> \<not> allowAutoFollow then a
      else
       (case resolveFollowTarget (e_muted env) args (pl a) of
          None \<Rightarrow> a
        | Some targetName \<Rightarrow>
            if \<not> canFollowTarget cfg (e_clock env) (e_isMoving env (effects a)) targetName
                     (pl a)
            then a
            else emit (Followed targetName args)
                   (a\<lparr>pl := markFollow cfg (e_clock env) targetName (pl a)\<rparr>)))"

definition callSkill :: "behavior \<Rightarrow> 'k step_env \<Rightarrow> string \<Rightarrow> string option \<Rightarrow> string
    \<Rightarrow> action_args \<Rightarrow> agent \<Rightarrow> agent" where
  "callSkill cfg env reason plr nm args a =
     (case e_skill env nm args of
        Missing \<Rightarrow> emit (UnknownSkill nm) a
      | Returns \<Rightarrow> emit (Skill nm args False) a
      | Throws \<Rightarrow>
          snd (say cfg env FailureNotice (e_notice env nm)
                 (if reason = [] then ''event'' else reason)
                 (if truthy_name plr then plr else None)
                 (emit (Skill nm args True) a)))"

definition run_action :: "behavior \<Rightarrow> 'k step_env \<Rightarrow> string \<Rightarrow> string option \<Rightarrow> action
    \<Rightarrow> agent \<Rightarrow> agent" where
  "run_action cfg env reason plr x a =
     (let nm = a_name x; args = a_args x in
      if nm = [] then a
      else if nm = ''start_mining_task'' then startMining args a
      else if nm = ''start_gather_wood'' \<or> nm = ''start_wood_task'' then startGatherWood args a
      else if nm = ''start_farm_task'' \<or> nm = ''start_farming_task'' then startFarm args a
      else if nm = ''follow'' then followAction cfg env reason args a
      else callSkill cfg env reason plr nm args a)"

fun run_actions :: "behavior \<Rightarrow> 'k step_env \<Rightarrow> string \<Rightarrow> string option \<Rightarrow> action list
    \<Rightarrow> agent \<Rightarrow> agent" where
  "run_actions cfg env reason plr [] a = a"
| "run_actions cfg env reason plr (x # xs) a =
     run_actions cfg env reason plr xs (run_action cfg env reason plr x a)"

definition offerChat :: "behavior \<Rightarrow> 'k step_env \<Rightarrow> decision \<Rightarrow> string \<Rightarrow> string option
    \<Rightarrow> agent \<Rightarrow> string option \<times> agent" where
  \<comment> \<open>the first half of \<^verbatim>\<open>executeDecision\<close>: the value of \<^verbatim>\<open>chatText\<close> and the agent\<close>
  "offerChat cfg env d reason plr a =
     (case chat d of
        None \<Rightarrow> (None, a)
      | Some c \<Rightarrow>
          (case say cfg env DecisionChat c (if reason = [] then ''autonomous'' else reason)
                  (if truthy_name plr then plr else None) a of
             (sent, a1) \<Rightarrow> (if sent then Some c else None, a1)))"

definition executeDecision :: "behavior \<Rightarrow> 'k step_env \<Rightarrow> decision \<Rightarrow> string \<Rightarrow> string option
    \<Rightarrow> agent \<Rightarrow> string option \<times> agent" where
  "executeDecision cfg env d reason plr a =
     (case offerChat cfg env d reason plr a of
        (chatText, a1) \<Rightarrow> (chatText, run_actions cfg env reason plr (actions d) a1))"

subsection \<open>The autonomous step\<close>

definition nearbyOf :: "behavior \<Rightarrow> scan \<Rightarrow> player list" where
  \<comment> \<open>the value of \<^verbatim>\<open>nearbyPlayers\<close>\<close>
  "nearbyOf cfg sc =
     (let maxDistance = num_or 32 (socialMaxDistance cfg) in
      filter (\<lambda>q. p_hasEntity q \<and> distance_of q \<le> maxDistance) (players sc))"

definition observe :: "behavior \<Rightarrow> 'k step_env \<Rightarrow> agent \<Rightarrow> agent" where
  \<comment> \<open>the scan is stored by the planner and handed to the throttle\<close>
  "observe cfg env a =
     (let nearbyPlayers = nearbyOf cfg (e_scan env);
          scanContext = (e_scan env)\<lparr>players := nearbyPlayers\<rparr>
      in a\<lparr>pl := updateLastScanPlayers nearbyPlayers (pl a),
           speech := map_option (updateContext cfg (e_bot env) (e_clock env) scanContext)
                       (speech a)\<rparr>)"

definition survive :: "behavior \<Rightarrow> 'k step_env \<Rightarrow> agent \<Rightarrow> bool \<times> agent" where
  \<comment> \<open>\<^verbatim>\<open>survivalDirector.step\<close> and the value of \<^verbatim>\<open>acted\<close>\<close>
  "survive cfg env a =
     (case step cfg (e_isBusy env (effects a)) (e_clock env) (e_clock env) (e_bot env)
             (director a) of
        (None, d1) \<Rightarrow> (False, a\<lparr>director := d1\<rparr>)
      | (Some act, d1) \<Rightarrow> (True, emit (Survived act) (a\<lparr>director := d1\<rparr>)))"

definition pickupDrops :: "behavior \<Rightarrow> 'k step_env \<Rightarrow> agent \<Rightarrow> agent" where
  "pickupDrops cfg env a =
     (let autoPickup = not_false (autoPickupDrops cfg) in
      if autoPickup \<and> nearbyDrops (e_scan env) > 0 \<and> \<not> isMoving (e_bot env)
           \<and> \<not> e_isBusy env (effects a)
      then emit (Pickup (truthy_or 18 (scanRadiusDrops cfg))) a
      else a)"

definition idle :: "behavior \<Rightarrow> 'k step_env \<Rightarrow> bool \<Rightarrow> agent \<Rightarrow> agent" where
  \<comment> \<open>the branch taken when \<^verbatim>\<open>shouldQueryLLM\<close> answers no\<close>
  "idle cfg env soloMode a =
     (if soloMode
      then (let a1 = pickupDrops cfg env a in
            if \<not> isMoving (e_bot env) \<and> \<not> e_isBusy env (effects a1)
            then emit (Wander (num_or 24 (wanderRange cfg))) a1
            else a1)
      else a)"

text \<open>
  The gates of the step. \<open>Inl\<close> is an early return with the agent as it is then,
  \<open>Inr\<close> the agent with which the backend is consulted.
\<close>

definition survivalStage :: "behavior \<Rightarrow> 'k step_env \<Rightarrow> agent \<Rightarrow> bool \<times> agent" where
  \<comment> \<open>the step up to the progression planner: the value of \<^verbatim>\<open>acted\<close> (false when
     the planner is not run) and the agent\<close>
  "survivalStage cfg env a =
     (let a1 = observe cfg env a;
          soloMode = (nearbyOf cfg (e_scan env) = []);
          survivalEnabled = not_false (autonomousSurvivalEnabled cfg);
          shouldRunSurvival = (mode (pl a1) = Survival \<or> (soloMode \<and> survivalEnabled))
      in if shouldRunSurvival then survive cfg env a1 else (False, a1))"

definition gate :: "behavior \<Rightarrow> 'k step_env \<Rightarrow> agent \<Rightarrow> agent + agent" where
  "gate cfg env a =
     (let soloMode = (nearbyOf cfg (e_scan env) = []) in
      case survivalStage cfg env a of
        (acted, a2) \<Rightarrow>
          if acted \<and> (soloMode \<or> mode (pl a2) = Survival) then Inl a2
          else
           (case shouldQueryLLM cfg (e_clock env) False (pl a2) of
              (False, p3) \<Rightarrow> Inl (idle cfg env soloMode (a2\<lparr>pl := p3\<rparr>))
            | (True, p3) \<Rightarrow>
               (case shouldAutonomousDecision cfg (e_clock env) p3 of
                  (False, p4) \<Rightarrow> Inl (a2\<lparr>pl := p4\<rparr>)
                | (True, p4) \<Rightarrow> Inr (a2\<lparr>pl := p4\<rparr>))))"

definition addressTarget :: "'k step_env \<Rightarrow> player \<Rightarrow> string \<Rightarrow> string" where
  \<comment> \<open>the player's name is put in front unless the lower-cased text contains it\<close>
  "addressTarget env tgt c =
     (if sublist (e_lower env (p_name tgt)) (e_lower env c) then c
      else p_name tgt @ '', '' @ c)"

definition socialise :: "'k step_env \<Rightarrow> player option \<Rightarrow> decision \<Rightarrow> bool \<times> decision" where
  \<comment> \<open>the value of \<^verbatim>\<open>usedSocial\<close> and the decision with its chat addressed\<close>
  "socialise env socialTarget d =
     (case socialTarget of
        None \<Rightarrow> (False, d)
      | Some tgt \<Rightarrow>
         (case chat d of
            None \<Rightarrow> (False, d)
          | Some c \<Rightarrow>
              if c = [] then (False, d)
              else (True, d\<lparr>chat := Some (addressTarget env tgt c)\<rparr>)))"

definition consult :: "behavior \<Rightarrow> ('k::linorder) step_env \<Rightarrow> agent \<Rightarrow> agent" where
  \<comment> \<open>the step from the assembly of the context on; the prompt and the context only feed
     the backend\<close>
  "consult cfg env a =
     (let nearbyPlayers = nearbyOf cfg (e_scan env);
          soloMode = (nearbyPlayers = []);
          socialTarget = (if soloMode then None
                          else getSocialTarget (e_key env) cfg (e_muted env) (e_bot env)
                                 (e_clock env) (pl a) nearbyPlayers);
          a1 = emit (Query (mode (pl a))) a
      in
      case e_backend env of
        None \<Rightarrow> a1
      | Some d0 \<Rightarrow>
         (let d1 = (if soloMode then d0\<lparr>chat := None\<rparr> else d0) in
          case socialise env socialTarget d1 of
            (usedSocial, d2) \<Rightarrow>
              (case executeDecision cfg env d2 ''autonomous'' (map_option p_name socialTarget) a1 of
                 (chatText, a2) \<Rightarrow>
                   (let a3 = (if usedSocial \<and> truthy_name chatText \<and> socialTarget \<noteq> None
                              then a2\<lparr>pl := markPlayerSpoke (e_clock env)
                                               (p_name (the socialTarget))
                                               (markSocialSpoke (e_clock env) (pl a2))\<rparr>
                              else a2)
                    in pickupDrops cfg env a3))))"

definition autonomousStep :: "behavior \<Rightarrow> ('k::linorder) step_env \<Rightarrow> agent \<Rightarrow> agent" where
  "autonomousStep cfg env a =
     (case gate cfg env a of
        Inl a1 \<Rightarrow> a1
      | Inr a1 \<Rightarrow> consult cfg env a1)"

text \<open>
  The state of the social rotation: the cursor, the round timestamp and the per-player
  record.
\<close>

definition social_fields :: "planner \<Rightarrow> nat \<times> real \<times> (string \<rightharpoonup> real)" where
  "social_fields p = (socialIndex p, lastSocialChatAt p, lastSpokeAt p)"

text \<open>
  An action that the dispatcher hands to the skill surface, where the named skill exists
  and returns.
\<close>

definition plainSkill :: "'k step_env \<Rightarrow> action \<Rightarrow> bool" where
  "plainSkill env x =
     (a_name x \<noteq> []
      \<and> a_name x \<notin> set [''start_mining_task'', ''start_gather_wood'', ''start_wood_task'',
                          ''start_farm_task'', ''start_farming_task'', ''follow'']
      \<and> e_skill env (a_name x) (a_args x) = Returns)"

text \<open>An effect that offers or sends the decision's own chat text.\<close>

fun is_decision_chat :: "effect \<Rightarrow> bool" where
  "is_decision_chat (Offer DecisionChat txt reason plr sent) = True"
| "is_decision_chat (BotChat DecisionChat txt) = True"
| "is_decision_chat ev = False"

text \<open>
  An effect that hands a text proposed by the backend on for sending: the decision's own
  chat text offered or sent, or one of the speech tools of the skill surface called with
  a text.
\<close>

definition speechTool :: "string \<Rightarrow> bool" where
  "speechTool nm = (nm \<in> set [''say'', ''whisper'', ''reply_to''])"

fun carries_chat :: "effect \<Rightarrow> bool" where
  "carries_chat (Offer DecisionChat txt reason plr sent) = True"
| "carries_chat (BotChat DecisionChat txt) = True"
| "carries_chat (Skill nm args threw) = (speechTool nm \<and> truthy_name (arg_text args))"
| "carries_chat ev = False"

text \<open>
  A successful rotation, as the autonomous step performs it once the utterance to the
  selected player has been accepted: \<^verbatim>\<open>getSocialTarget\<close>, then \<^verbatim>\<open>markSocialSpoke\<close>
  and \<^verbatim>\<open>markPlayerSpoke\<close>. \<open>rotations\<close> runs one such round per clock reading and
  scan, and lists the players selected.
\<close>

definition socialRound :: "(string \<Rightarrow> 'k::linorder) \<Rightarrow> behavior \<Rightarrow> (string \<Rightarrow> bool) \<Rightarrow> bot
    \<Rightarrow> real \<Rightarrow> player list \<Rightarrow> planner \<Rightarrow> player option \<times> planner" where
  "socialRound key cfg muted b now ps p =
     (case getSocialTarget key cfg muted b now p ps of
        None \<Rightarrow> (None, p)
      | Some q \<Rightarrow> (Some q, markPlayerSpoke now (p_name q) (markSocialSpoke now p)))"

fun rotations :: "(string \<Rightarrow> 'k::linorder) \<Rightarrow> behavior \<Rightarrow> (string \<Rightarrow> bool) \<Rightarrow> bot
    \<Rightarrow> planner \<Rightarrow> (real \<times> player list) list \<Rightarrow> player option list" where
  "rotations key cfg muted b p [] = []"
| "rotations key cfg muted b p ((now, ps) # rest) =
     fst (socialRound key cfg muted b now ps p)
       # rotations key cfg muted b (snd (socialRound key cfg muted b now ps p)) rest"

text \<open>
  The names of the eligible candidates, in the order of the scan. \<open>names_fixed\<close> says
  that at every round of a run the round-level gate is open and the eligible candidates
  are, one record each, the players named in \<open>NS\<close>; where they stand and in which order
  the scan lists them may change from round to round.
\<close>

definition eligibleNames :: "behavior \<Rightarrow> (string \<Rightarrow> bool) \<Rightarrow> bot \<Rightarrow> real \<Rightarrow> planner
    \<Rightarrow> player list \<Rightarrow> string list" where
  "eligibleNames cfg muted b now p ps = map p_name (eligiblePlayers cfg muted b now p ps)"

definition roundOpen :: "behavior \<Rightarrow> real \<Rightarrow> planner \<Rightarrow> bool" where
  "roundOpen cfg now p =
     (truthy_or 0 (socialRoundInterval cfg) > 0
      \<and> now - lastSocialChatAt p \<ge> truthy_or 0 (socialRoundInterval cfg))"

fun names_fixed :: "(string \<Rightarrow> 'k::linorder) \<Rightarrow> behavior \<Rightarrow> (string \<Rightarrow> bool) \<Rightarrow> bot
    \<Rightarrow> string list \<Rightarrow> planner \<Rightarrow> (real \<times> player list) list \<Rightarrow> bool" where
  "names_fixed key cfg muted b NS p [] = True"
| "names_fixed key cfg muted b NS p ((now, ps) # rest) =
     (roundOpen cfg now p
      \<and> distinct (eligibleNames cfg muted b now p ps)
      \<and> set (eligibleNames cfg muted b now p ps) = set NS
      \<and> names_fixed key cfg muted b NS (snd (socialRound key cfg muted b now ps p)) rest)"

text \<open>Both cooldowns of the director have elapsed at clock reading \<open>now\<close>.\<close>

definition cooldowns_elapsed :: "behavior \<Rightarrow> real \<Rightarrow> survival_director \<Rightarrow> bool" where
  "cooldowns_elapsed cfg now d =
     (now - lastStepAt d \<ge> num_or 10000 (survivalStepCooldownMs cfg)
      \<and> now - lastActionAt d \<ge> num_or 15000 (survivalActionCooldownMs cfg))"

text \<open>The eating branch fires: health or food is low and an edible stack is held.\<close>

definition eat_due :: "bot \<Rightarrow> bool" where
  "eat_due b =
     ((num_or 20 (health b) \<le> 10 \<or> num_or 20 (food b) \<le> 12) \<and> getFoodItem b \<noteq> None)"

text \<open>Concrete inventories: a healthy, well-fed agent holding the given stacks.\<close>

definition stack :: "string \<Rightarrow> nat \<Rightarrow> item" where
  "stack nm n = \<lparr> item_name = nm, item_count = n, item_food = 0 \<rparr>"

definition vanilla :: "string list" where
  "vanilla = [''crafting_table'', ''wooden_pickaxe'', ''stone_pickaxe'', ''iron_pickaxe'',
     ''cobblestone'', ''raw_iron'', ''iron_ore'', ''iron_ingot'', ''bamboo_block'',
     ''oak_log'', ''oak_planks'', ''bread'']"

definition bot_with :: "item list \<Rightarrow> bot" where
  "bot_with its = \<lparr> username = ''bot'', health = Some 20, food = Some 20, inventory = its,
     registry = vanilla, isMoving = False, time_isDay = Some True \<rparr>"

text \<open>A throttle that has just been constructed and then holds the given history and burst timestamps.\<close>

definition throttle_with :: "history_entry list \<Rightarrow> real list \<Rightarrow> speech_manager" where
  "throttle_with h ts =
     (new_speech_manager baseConfig 0 0)\<lparr>messageHistory := h, messageTimestamps := ts\<rparr>"

text \<open>Concrete players: visible, at the given distance.\<close>

definition seen :: "string \<Rightarrow> real \<Rightarrow> player" where
  "seen nm dst = \<lparr> p_name = nm, p_distance = Some dst, p_hasEntity = True \<rparr>"

definition three_nearby :: "player list" where
  "three_nearby = [seen ''zoe'' 5, seen ''alex'' 3, seen ''mia'' 4]"

text \<open>
  Concrete collaborators: a healthy agent with an empty inventory, nobody muted, names
  ordered as strings, ASCII texts, every skill present and returning, no task running, and
  the same readings at every offer.
\<close>

definition quiet_env :: "real \<Rightarrow> player list \<Rightarrow> decision option \<Rightarrow> string step_env" where
  "quiet_env now ps dec = \<lparr>
     e_clock = now,
     e_bot = bot_with [],
     e_scan = \<lparr> players = ps, nearbyDrops = 0 \<rparr>,
     e_muted = (\<lambda>n. False),
     e_key = (\<lambda>n. n),
     e_normalize = normalizeText_ascii,
     e_lower = map lower_ascii,
     e_notice = (\<lambda>n. ''cannot do '' @ n),
     e_isBusy = (\<lambda>es. False),
     e_isMoving = (\<lambda>es. False),
     e_skill = (\<lambda>n args. Returns),
     e_speech = (\<lambda>i. \<lparr> e_now = now, e_rndAllow = 0, e_rndDelay = 0, e_rndNext = 0,
                         e_moving = False, e_taskBusy = False \<rparr>),
     e_backend = dec \<rparr>"

definition no_args :: action_args where
  "no_args = \<lparr> arg_name = None, arg_target = None, arg_target_block = None,
     arg_count = None, arg_types = None, arg_wood_types = None, arg_woods = None,
     arg_crops = None, arg_crop_types = None, arg_targetName = None,
     arg_entity_name = None, arg_entity = None, arg_player = None,
     arg_text = None \<rparr>"

definition fresh_agent :: "op_mode \<Rightarrow> real \<Rightarrow> agent" where
  \<comment> \<open>all components as constructed, the throttle at clock reading \<open>t\<close>\<close>
  "fresh_agent m t = \<lparr>
     pl = new_planner m,
     director = new_survival_director,
     speech = Some (new_speech_manager baseConfig t 0),
     effects = [] \<rparr>"

definition say_hello :: action where
  \<comment> \<open>the speech tool called with a text\<close>
  "say_hello = \<lparr> a_name = ''say'', a_args = no_args\<lparr>arg_text := Some ''hello''\<rparr> \<rparr>"

definition hello_say_jump :: decision where
  "hello_say_jump = \<lparr> chat = Some ''hello'',
     actions = [say_hello, \<lparr> a_name = ''jump'', a_args = no_args \<rparr>] \<rparr>"

definition hello_tasks :: decision where
  \<comment> \<open>a chat text with two task starts, two follows and a speech tool\<close>
  "hello_tasks = \<lparr> chat = Some ''hello'',
     actions = [\<lparr> a_name = ''start_mining_task'',
                   a_args = no_args\<lparr>arg_name := Some ''stone'', arg_count := Some 5\<rparr> \<rparr>,
                \<lparr> a_name = ''start_farm_task'', a_args = no_args \<rparr>,
                \<lparr> a_name = ''follow'', a_args = no_args\<lparr>arg_entity_name := Some ''alex''\<rparr> \<rparr>,
                \<lparr> a_name = ''follow'', a_args = no_args\<lparr>arg_entity_name := Some ''zoe''\<rparr> \<rparr>,
                say_hello] \<rparr>"

definition moving_rounds :: "(real \<times> player list) list" where
  \<comment> \<open>three rounds in which the same three players stand and are listed differently\<close>
  "moving_rounds =
     [(600000, [seen ''zoe'' 5, seen ''alex'' 3, seen ''mia'' 4]),
      (1200000, [seen ''alex'' 7, seen ''zoe'' 2, seen ''mia'' 4]),
      (1800000, [seen ''mia'' 1, seen ''zoe'' 9, seen ''alex'' 2])]"

definition hello_jump :: decision where
  "hello_jump = \<lparr> chat = Some ''hello'',
     actions = [\<lparr> a_name = ''jump'', a_args = no_args \<rparr>] \<rparr>"

definition social_config :: behavior where
  \<comment> \<open>the base configuration with the progression planner off outside survival mode\<close>
  "social_config = baseConfig\<lparr>autonomousSurvivalEnabled := Some False\<rparr>"

definition follow_config :: behavior where
  \<comment> \<open>the same with following allowed in autonomous decisions\<close>
  "follow_config = social_config\<lparr>autonomousFollowEnabled := Some True\<rparr>"

definition decided_recently :: agent where
  \<comment> \<open>a fresh agent whose last autonomous decision was taken at clock reading 25000\<close>
  "decided_recently =
     (fresh_agent Autonomous 0)
       \<lparr>pl := (new_planner Autonomous)\<lparr>lastAutonomousDecisionAt := 25000\<rparr>\<rparr>"

section \<open>Properties of the progression planner\<close>

lemma step_open:
  assumes "cooldowns_elapsed cfg now d" "\<not> busy"
  shows "fst (step cfg busy now now' b d) = decide b"
  using assms
  by (auto simp: step_def shouldStep_def canAct_def cooldowns_elapsed_def Let_def
      split: option.splits)

lemma decide_calm: "\<not> eat_due b \<Longrightarrow> decide b = progression (num_or 20 (food b)) b"
  by (auto simp: decide_def eat_due_def Let_def split: option.splits)

lemma decide_eats: "eat_due b \<Longrightarrow> \<exists>nm. decide b = Some (Eat nm)"
  by (auto simp: decide_def eat_due_def Let_def split: option.splits)

text \<open>
  Claim C1, as amended. With both cooldowns elapsed, no foreground task busy and the
  eating branch not due, \<^verbatim>\<open>step\<close> chooses: for wood 0, planks 0 and no crafting table,
  the task gather\_wood with amount 24; for wood 0, planks 6 and no crafting table, crafting
  a crafting table; for a crafting table held, planks 3, no wooden pickaxe and at least 12
  wood and planks together, crafting the wooden pickaxe; for a wooden pickaxe held, no stone
  pickaxe, cobblestone 2, a crafting table held and at least 12 wood and planks together,
  the task mine(stone, 12). The choice depends on the snapshot only: any other invocation
  with elapsed cooldowns, whatever the director's timestamps and the clock, chooses the
  same action.
\<close>

theorem step_listed_snapshots:
  assumes gates: "cooldowns_elapsed cfg now d" "\<not> busy"
  shows "(\<not> eat_due b \<and> wood_count b = 0 \<and> plank_count b = 0 \<and> \<not> hasItem b ''crafting_table''
           \<longrightarrow> fst (step cfg busy now now' b d) = Some (StartTask (GatherWood 24 None)))
       \<and> (\<not> eat_due b \<and> wood_count b = 0 \<and> plank_count b = 6 \<and> \<not> hasItem b ''crafting_table''
           \<longrightarrow> fst (step cfg busy now now' b d) = Some (CraftItem ''crafting_table'' 1))
       \<and> (\<not> eat_due b \<and> hasItem b ''crafting_table'' \<and> plank_count b = 3
            \<and> \<not> hasItem b ''wooden_pickaxe'' \<and> 12 \<le> wood_count b + plank_count b
           \<longrightarrow> fst (step cfg busy now now' b d) = Some (CraftItem ''wooden_pickaxe'' 1))
       \<and> (\<not> eat_due b \<and> hasItem b ''wooden_pickaxe'' \<and> \<not> hasItem b ''stone_pickaxe''
            \<and> countItem b ''cobblestone'' = 2
            \<and> hasItem b ''crafting_table'' \<and> 12 \<le> wood_count b + plank_count b
           \<longrightarrow> fst (step cfg busy now now' b d) = Some (StartTask (Mine ''stone'' 12)))
       \<and> (\<forall>d2 t2 t2'. cooldowns_elapsed cfg t2 d2
           \<longrightarrow> fst (step cfg busy t2 t2' b d2) = fst (step cfg busy now now' b d))"
proof -
  have open_here: "fst (step cfg busy now now' b d) = decide b"
    using gates by (rule step_open)
  have s1: "\<not> eat_due b \<and> wood_count b = 0 \<and> plank_count b = 0 \<and> \<not> hasItem b ''crafting_table''
           \<longrightarrow> decide b = Some (StartTask (GatherWood 24 None))"
    by (simp add: decide_calm progression_def)
  have s2: "\<not> eat_due b \<and> wood_count b = 0 \<and> plank_count b = 6 \<and> \<not> hasItem b ''crafting_table''
           \<longrightarrow> decide b = Some (CraftItem ''crafting_table'' 1)"
    by (simp add: decide_calm progression_def)
  have s3: "\<not> eat_due b \<and> hasItem b ''crafting_table'' \<and> plank_count b = 3
            \<and> \<not> hasItem b ''wooden_pickaxe'' \<and> 12 \<le> wood_count b + plank_count b
           \<longrightarrow> decide b = Some (CraftItem ''wooden_pickaxe'' 1)"
    by (simp add: decide_calm progression_def)
  have s4: "\<not> eat_due b \<and> hasItem b ''wooden_pickaxe'' \<and> \<not> hasItem b ''stone_pickaxe''
            \<and> countItem b ''cobblestone'' = 2
            \<and> hasItem b ''crafting_table'' \<and> 12 \<le> wood_count b + plank_count b
           \<longrightarrow> decide b = Some (StartTask (Mine ''stone'' 12))"
    by (simp add: decide_calm progression_def)
  have s5: "\<forall>d2 t2 t2'. cooldowns_elapsed cfg t2 d2
           \<longrightarrow> fst (step cfg busy t2 t2' b d2) = fst (step cfg busy now now' b d)"
  proof (intro allI impI)
    fix d2 t2 t2'
    assume "cooldowns_elapsed cfg t2 d2"
    then have "fst (step cfg busy t2 t2' b d2) = decide b"
      using gates(2) by (rule step_open)
    then show "fst (step cfg busy t2 t2' b d2) = fst (step cfg busy now now' b d)"
      by (simp add: open_here)
  qed
  show ?thesis
    using s1 s2 s3 s4 s5 by (simp only: open_here)
qed

theorem step_listed_snapshots_witness:
  "cooldowns_elapsed baseConfig 20000 new_survival_director
   \<and> fst (step baseConfig False 20000 20500 (bot_with []) new_survival_director)
       = Some (StartTask (GatherWood 24 None))
   \<and> fst (step baseConfig False 20000 20500 (bot_with [stack ''oak_planks'' 6])
            new_survival_director)
       = Some (CraftItem ''crafting_table'' 1)
   \<and> fst (step baseConfig False 20000 20500
            (bot_with [stack ''crafting_table'' 1, stack ''oak_planks'' 3, stack ''oak_log'' 9])
            new_survival_director)
       = Some (CraftItem ''wooden_pickaxe'' 1)
   \<and> fst (step baseConfig False 20000 20500
            (bot_with [stack ''crafting_table'' 1, stack ''oak_log'' 12,
                       stack ''wooden_pickaxe'' 1, stack ''cobblestone'' 2])
            new_survival_director)
       = Some (StartTask (Mine ''stone'' 12))
   \<and> fst (step baseConfig False 99000 99100 (bot_with [])
            \<lparr> lastStepAt = 80000, lastActionAt = 80100 \<rparr>)
       = fst (step baseConfig False 20000 20500 (bot_with []) new_survival_director)"
proof -
  let ?b1 = "bot_with []"
  let ?b2 = "bot_with [stack ''oak_planks'' 6]"
  let ?b3 = "bot_with [stack ''crafting_table'' 1, stack ''oak_planks'' 3, stack ''oak_log'' 9]"
  let ?b4 = "bot_with [stack ''crafting_table'' 1, stack ''oak_log'' 12,
                       stack ''wooden_pickaxe'' 1, stack ''cobblestone'' 2]"
  have g: "cooldowns_elapsed baseConfig 20000 new_survival_director"
    by code_simp
  have g2: "cooldowns_elapsed baseConfig 99000 \<lparr> lastStepAt = 80000, lastActionAt = 80100 \<rparr>"
    by code_simp
  have nb: "\<not> False" by simp
  have h1: "\<not> eat_due ?b1 \<and> wood_count ?b1 = 0 \<and> plank_count ?b1 = 0
            \<and> \<not> hasItem ?b1 ''crafting_table''"
    by code_simp
  have h2: "\<not> eat_due ?b2 \<and> wood_count ?b2 = 0 \<and> plank_count ?b2 = 6
            \<and> \<not> hasItem ?b2 ''crafting_table''"
    by code_simp
  have h3: "\<not> eat_due ?b3 \<and> hasItem ?b3 ''crafting_table'' \<and> plank_count ?b3 = 3
            \<and> \<not> hasItem ?b3 ''wooden_pickaxe'' \<and> 12 \<le> wood_count ?b3 + plank_count ?b3"
    by code_simp
  have h4: "\<not> eat_due ?b4 \<and> hasItem ?b4 ''wooden_pickaxe'' \<and> \<not> hasItem ?b4 ''stone_pickaxe''
            \<and> countItem ?b4 ''cobblestone'' = 2
            \<and> hasItem ?b4 ''crafting_table'' \<and> 12 \<le> wood_count ?b4 + plank_count ?b4"
    by code_simp
  note t1 = step_listed_snapshots [OF g nb, of ?b1 20500]
  note t2 = step_listed_snapshots [OF g nb, of ?b2 20500]
  note t3 = step_listed_snapshots [OF g nb, of ?b3 20500]
  note t4 = step_listed_snapshots [OF g nb, of ?b4 20500]
  have c1: "fst (step baseConfig False 20000 20500 ?b1 new_survival_director)
              = Some (StartTask (GatherWood 24 None))"
    using t1 h1 by blast
  have c2: "fst (step baseConfig False 20000 20500 ?b2 new_survival_director)
              = Some (CraftItem ''crafting_table'' 1)"
    using t2 h2 by blast
  have c3: "fst (step baseConfig False 20000 20500 ?b3 new_survival_director)
              = Some (CraftItem ''wooden_pickaxe'' 1)"
    using t3 h3 by blast
  have c4: "fst (step baseConfig False 20000 20500 ?b4 new_survival_director)
              = Some (StartTask (Mine ''stone'' 12))"
    using t4 h4 by blast
  have c5: "fst (step baseConfig False 99000 99100 ?b1
                  \<lparr> lastStepAt = 80000, lastActionAt = 80100 \<rparr>)
              = fst (step baseConfig False 20000 20500 ?b1 new_survival_director)"
    using t1 g2 by blast
  show ?thesis
    using g c1 c2 c3 c4 c5 by simp
qed

theorem step_listed_snapshots_counterexample:
  "hasItem (bot_with [stack ''crafting_table'' 1, stack ''oak_planks'' 3]) ''crafting_table''
   \<and> plank_count (bot_with [stack ''crafting_table'' 1, stack ''oak_planks'' 3]) = 3
   \<and> \<not> hasItem (bot_with [stack ''crafting_table'' 1, stack ''oak_planks'' 3]) ''wooden_pickaxe''
   \<and> cooldowns_elapsed baseConfig 20000 new_survival_director
   \<and> fst (step baseConfig False 20000 20500
            (bot_with [stack ''crafting_table'' 1, stack ''oak_planks'' 3])
            new_survival_director)
       = Some (StartTask (GatherWood 24 None))
   \<and> fst (step baseConfig False 20000 20500
            (bot_with [stack ''crafting_table'' 1, stack ''oak_planks'' 3])
            new_survival_director)
       \<noteq> Some (CraftItem ''wooden_pickaxe'' 1)
   \<and> hasItem (bot_with [stack ''wooden_pickaxe'' 1, stack ''cobblestone'' 2]) ''wooden_pickaxe''
   \<and> \<not> hasItem (bot_with [stack ''wooden_pickaxe'' 1, stack ''cobblestone'' 2]) ''stone_pickaxe''
   \<and> countItem (bot_with [stack ''wooden_pickaxe'' 1, stack ''cobblestone'' 2]) ''cobblestone'' = 2
   \<and> fst (step baseConfig False 20000 20500
            (bot_with [stack ''wooden_pickaxe'' 1, stack ''cobblestone'' 2])
            new_survival_director)
       = Some (StartTask (GatherWood 24 None))
   \<and> fst (step baseConfig False 20000 20500
            (bot_with [stack ''wooden_pickaxe'' 1, stack ''cobblestone'' 2])
            new_survival_director)
       \<noteq> Some (StartTask (Mine ''stone'' 12))"
  by code_simp

text \<open>
  Claim C8, as amended. Smelting is not tied to the stone-pickaxe stage. With the gates
  open, \<^verbatim>\<open>step\<close> smelts raw iron exactly when raw iron is held and no earlier branch of
  the chain fires: eating is not due, a crafting table is held, wood and planks together
  reach 12, the wooden pickaxe is held or fewer than 3 planks are, a held wooden pickaxe
  comes with a stone pickaxe, and a held stone pickaxe without an iron pickaxe comes with
  at least 6 iron items; the amount is the held raw iron capped at 8. Whether the iron
  pickaxe is held does not block smelting.
\<close>

theorem step_smelts_iff:
  assumes gates: "cooldowns_elapsed cfg now d" "\<not> busy"
  shows "fst (step cfg busy now now' b d) = Some (UseFurnace ''raw_iron'' n)
     \<longleftrightarrow> (\<not> eat_due b
          \<and> hasItem b ''crafting_table''
          \<and> 12 \<le> wood_count b + plank_count b
          \<and> (hasItem b ''wooden_pickaxe'' \<or> plank_count b < 3)
          \<and> (hasItem b ''wooden_pickaxe'' \<longrightarrow> hasItem b ''stone_pickaxe'')
          \<and> (hasItem b ''stone_pickaxe'' \<and> \<not> hasItem b ''iron_pickaxe''
               \<longrightarrow> 6 \<le> countItem b ''raw_iron'' + countItem b ''iron_ore''
                        + countItem b ''iron_ingot'')
          \<and> 0 < countItem b ''raw_iron''
          \<and> n = min (countItem b ''raw_iron'') 8)"
proof (cases "eat_due b")
  case True
  then obtain fi where "decide b = Some (Eat fi)"
    using decide_eats by blast
  then show ?thesis using True by (simp add: step_open[OF gates])
next
  case False
  show ?thesis
    unfolding step_open[OF gates] decide_calm[OF False] progression_def Let_def
    using False by (auto split: if_splits)
qed

theorem step_smelts_iff_witness:
  "cooldowns_elapsed baseConfig 20000 new_survival_director
   \<and> hasItem (bot_with [stack ''crafting_table'' 1, stack ''oak_log'' 16,
        stack ''wooden_pickaxe'' 1, stack ''stone_pickaxe'' 1, stack ''iron_pickaxe'' 1,
        stack ''raw_iron'' 11]) ''iron_pickaxe''
   \<and> fst (step baseConfig False 20000 20500
        (bot_with [stack ''crafting_table'' 1, stack ''oak_log'' 16,
          stack ''wooden_pickaxe'' 1, stack ''stone_pickaxe'' 1, stack ''iron_pickaxe'' 1,
          stack ''raw_iron'' 11]) new_survival_director)
      = Some (UseFurnace ''raw_iron'' 8)"
proof -
  let ?b = "bot_with [stack ''crafting_table'' 1, stack ''oak_log'' 16,
          stack ''wooden_pickaxe'' 1, stack ''stone_pickaxe'' 1, stack ''iron_pickaxe'' 1,
          stack ''raw_iron'' 11]"
  have g: "cooldowns_elapsed baseConfig 20000 new_survival_director"
    by code_simp
  have nb: "\<not> False" by simp
  have h: "\<not> eat_due ?b
          \<and> hasItem ?b ''crafting_table''
          \<and> 12 \<le> wood_count ?b + plank_count ?b
          \<and> (hasItem ?b ''wooden_pickaxe'' \<or> plank_count ?b < 3)
          \<and> (hasItem ?b ''wooden_pickaxe'' \<longrightarrow> hasItem ?b ''stone_pickaxe'')
          \<and> (hasItem ?b ''stone_pickaxe'' \<and> \<not> hasItem ?b ''iron_pickaxe''
               \<longrightarrow> 6 \<le> countItem ?b ''raw_iron'' + countItem ?b ''iron_ore''
                        + countItem ?b ''iron_ingot'')
          \<and> 0 < countItem ?b ''raw_iron''
          \<and> 8 = min (countItem ?b ''raw_iron'') 8"
    by code_simp
  have i: "hasItem ?b ''iron_pickaxe''"
    by code_simp
  have "fst (step baseConfig False 20000 20500 ?b new_survival_director)
          = Some (UseFurnace ''raw_iron'' 8)"
    using step_smelts_iff [OF g nb, of 20500 ?b 8] h by blast
  then show ?thesis
    using g i by simp
qed

theorem step_smelts_counterexample:
  "hasItem (bot_with [stack ''crafting_table'' 1, stack ''oak_log'' 12,
        stack ''wooden_pickaxe'' 1, stack ''stone_pickaxe'' 1, stack ''iron_pickaxe'' 1,
        stack ''raw_iron'' 3]) ''iron_pickaxe''
   \<and> cooldowns_elapsed baseConfig 20000 new_survival_director
   \<and> fst (step baseConfig False 20000 20500
        (bot_with [stack ''crafting_table'' 1, stack ''oak_log'' 12,
          stack ''wooden_pickaxe'' 1, stack ''stone_pickaxe'' 1, stack ''iron_pickaxe'' 1,
          stack ''raw_iron'' 3]) new_survival_director)
      = Some (UseFurnace ''raw_iron'' 3)
   \<and> \<not> hasItem (bot_with [stack ''crafting_table'' 1, stack ''oak_log'' 12,
        stack ''raw_iron'' 2]) ''stone_pickaxe''
   \<and> fst (step baseConfig False 20000 20500
        (bot_with [stack ''crafting_table'' 1, stack ''oak_log'' 12, stack ''raw_iron'' 2])
        new_survival_director)
      = Some (UseFurnace ''raw_iron'' 2)"
  by code_simp

section \<open>Properties of the speech throttle\<close>

lemma clamp_range: "0 \<le> clamp v 0 100 \<and> clamp v 0 100 \<le> 100"
  by (simp add: clamp_def)

lemma recoverEnergy_range:
  assumes "0 \<le> socialEnergy s \<and> socialEnergy s \<le> 100"
  shows "0 \<le> socialEnergy (recoverEnergy cfg b now s)
         \<and> socialEnergy (recoverEnergy cfg b now s) \<le> 100"
  using assms by (simp add: recoverEnergy_def Let_def clamp_range)

lemma updateContext_range:
  assumes "0 \<le> socialEnergy s \<and> socialEnergy s \<le> 100"
  shows "0 \<le> socialEnergy (updateContext cfg b now sc s)
         \<and> socialEnergy (updateContext cfg b now sc s) \<le> 100"
  unfolding updateContext_def using assms by (intro recoverEnergy_range) simp

lemma decayEnergy_range:
  assumes "0 \<le> socialEnergy s \<and> socialEnergy s \<le> 100"
  shows "0 \<le> socialEnergy (decayEnergy cfg reason s)
         \<and> socialEnergy (decayEnergy cfg reason s) \<le> 100"
  using assms by (simp add: decayEnergy_def Let_def clamp_range split: jsnum.split)

lemma pushHistory_energy [simp]:
  "socialEnergy (pushHistory nrm cfg now msg s) = socialEnergy s"
  by (simp add: pushHistory_def Let_def)

lemma pushTimestamp_energy [simp]:
  "socialEnergy (pushTimestamp cfg now s) = socialEnergy s"
  by (simp add: pushTimestamp_def Let_def)

lemma notePlayer_energy [simp]:
  "socialEnergy (notePlayer now plr s) = socialEnergy s"
  by (simp add: notePlayer_def)

lemma scheduleAutonomous_energy [simp]:
  "socialEnergy (scheduleAutonomous cfg now rnd reason s) = socialEnergy s"
  by (simp add: scheduleAutonomous_def)

lemma recordMessage_range:
  assumes "0 \<le> socialEnergy s \<and> socialEnergy s \<le> 100"
  shows "0 \<le> socialEnergy (recordMessage nrm cfg now rnd msg plr reason s)
         \<and> socialEnergy (recordMessage nrm cfg now rnd msg plr reason s) \<le> 100"
  unfolding recordMessage_def using assms by (intro decayEnergy_range) simp

lemma energy_run_range:
  assumes "0 \<le> socialEnergy s \<and> socialEnergy s \<le> 100"
  shows "0 \<le> socialEnergy (energy_run nrm cfg s ops)
         \<and> socialEnergy (energy_run nrm cfg s ops) \<le> 100"
  using assms
proof (induction ops arbitrary: s)
  case Nil
  then show ?case by simp
next
  case (Cons op ops)
  show ?case
  proof (cases op)
    case (Refresh b now sc)
    with Cons.IH [OF updateContext_range [OF Cons.prems]] show ?thesis by simp
  next
    case (Emission now rnd utterance plr reason)
    with Cons.IH [OF recordMessage_range [OF Cons.prems]] show ?thesis by simp
  qed
qed

text \<open>
  Claim C5. From the constructor's value, the social energy stays within 0 and 100 after
  every sequence of context refreshes (recovery computations) and emissions (decays),
  whatever the clock readings, the day or night state, the configured amounts and the
  reasons.
\<close>

theorem energy_within_bounds:
  "0 \<le> socialEnergy (energy_run nrm cfg (new_speech_manager cfg t0 r0) ops)
   \<and> socialEnergy (energy_run nrm cfg (new_speech_manager cfg t0 r0) ops) \<le> 100"
  by (rule energy_run_range) (simp add: new_speech_manager_def)

lemma isDuplicate_timestamps [simp]:
  "messageTimestamps (snd (isDuplicate nrm cfg now msg s)) = messageTimestamps s"
  by (simp add: isDuplicate_def Let_def)

lemma isDuplicate_hit:
  assumes "0 < truthy_or 0 (autoChatHistoryMs cfg)"
    and "e \<in> set (messageHistory s)"
    and "now - timestamp e \<le> truthy_or 0 (autoChatHistoryMs cfg)"
    and "nrm msg = normalized e"
  shows "fst (isDuplicate nrm cfg now msg s)"
proof (cases "nrm msg = []")
  case True
  then show ?thesis by (simp add: isDuplicate_def)
next
  case False
  have "e \<in> set (filter (\<lambda>it. now - timestamp it \<le> truthy_or 0 (autoChatHistoryMs cfg))
                  (messageHistory s))"
    using assms(2,3) by simp
  then have "list_ex (\<lambda>it. normalized it = nrm msg)
               (filter (\<lambda>it. now - timestamp it \<le> truthy_or 0 (autoChatHistoryMs cfg))
                  (messageHistory s))"
    unfolding list_ex_iff using assms(4) by (intro bexI [of _ e]) simp_all
  then show ?thesis
    using False assms(1) by (simp add: isDuplicate_def Let_def)
qed

lemma shouldAllow_duplicate:
  assumes "reason \<noteq> ''direct''" "reason \<noteq> ''mention''"
    and "fst (isDuplicate nrm cfg now msg s)"
  shows "\<not> fst (shouldAllow nrm cfg now rnd reason msg plr s)"
  using assms by (simp add: shouldAllow_def split_beta)

lemma shouldAllow_direct:
  assumes "reason = ''direct'' \<or> reason = ''mention''"
  shows "shouldAllow nrm cfg now rnd reason msg plr s = (msg \<noteq> [], s)"
proof (cases "msg = []")
  case True
  then show ?thesis by (simp add: shouldAllow_def)
next
  case False
  from assms show ?thesis
  proof
    assume "reason = ''direct''"
    with False show ?thesis by (simp add: shouldAllow_def)
  next
    assume "reason = ''mention''"
    with False show ?thesis by (simp add: shouldAllow_def)
  qed
qed

text \<open>
  Claim C6. With a duplicate-history window configured, a candidate whose normalised text
  equals that of a history entry whose timestamp lies within the window is rejected by
  \<^verbatim>\<open>shouldAllow\<close> for every reason other than direct and mention; for direct and
  mention the history is neither consulted nor pruned, and the candidate is admitted when
  its text is not empty.
\<close>

theorem duplicate_rejected_unless_direct:
  assumes "0 < truthy_or 0 (autoChatHistoryMs cfg)"
    and "e \<in> set (messageHistory s)"
    and "now - timestamp e \<le> truthy_or 0 (autoChatHistoryMs cfg)"
    and "nrm msg = normalized e"
  shows "(reason \<noteq> ''direct'' \<and> reason \<noteq> ''mention''
            \<longrightarrow> \<not> fst (shouldAllow nrm cfg now rnd reason msg plr s))
       \<and> (reason = ''direct'' \<or> reason = ''mention''
            \<longrightarrow> shouldAllow nrm cfg now rnd reason msg plr s = (msg \<noteq> [], s))"
proof (intro conjI impI)
  assume r: "reason \<noteq> ''direct'' \<and> reason \<noteq> ''mention''"
  have "fst (isDuplicate nrm cfg now msg s)"
    using assms by (rule isDuplicate_hit [where nrm = nrm and msg = msg])
  with r show "\<not> fst (shouldAllow nrm cfg now rnd reason msg plr s)"
    by (intro shouldAllow_duplicate) simp_all
next
  assume "reason = ''direct'' \<or> reason = ''mention''"
  then show "shouldAllow nrm cfg now rnd reason msg plr s = (msg \<noteq> [], s)"
    by (rule shouldAllow_direct)
qed

theorem duplicate_rejected_unless_direct_witness:
  "0 < truthy_or 0 (autoChatHistoryMs baseConfig)
   \<and> normalizeText_ascii ''Hello, World!'' = ''hello world''
   \<and> \<not> fst (shouldAllow normalizeText_ascii baseConfig 2000 0 ''event'' ''Hello, World!'' None
              (throttle_with [\<lparr> normalized = ''hello world'', timestamp = 1000 \<rparr>] []))
   \<and> fst (shouldAllow normalizeText_ascii baseConfig 2000 0 ''direct'' ''Hello, World!'' None
              (throttle_with [\<lparr> normalized = ''hello world'', timestamp = 1000 \<rparr>] []))"
proof -
  let ?e = "\<lparr> normalized = ''hello world'', timestamp = 1000 \<rparr>"
  let ?s = "throttle_with [?e] []"
  have w: "0 < truthy_or 0 (autoChatHistoryMs baseConfig)"
    by (simp add: baseConfig_def truthy_or_def)
  have m: "?e \<in> set (messageHistory ?s)"
    by (simp add: throttle_with_def)
  have a: "2000 - timestamp ?e \<le> truthy_or 0 (autoChatHistoryMs baseConfig)"
    by (simp add: baseConfig_def truthy_or_def)
  have n: "normalizeText_ascii ''Hello, World!'' = normalized ?e"
    by code_simp
  note t = duplicate_rejected_unless_direct
    [where nrm = normalizeText_ascii and msg = "''Hello, World!''", OF w m a n]
  have r: "\<not> fst (shouldAllow normalizeText_ascii baseConfig 2000 0 ''event''
                    ''Hello, World!'' None ?s)"
    using t [of "''event''" 0 None] by simp
  have d: "fst (shouldAllow normalizeText_ascii baseConfig 2000 0 ''direct''
                    ''Hello, World!'' None ?s)"
    using t [of "''direct''" 0 None] by simp
  show ?thesis
    using w n r d by simp
qed

lemma canBurst_over:
  assumes "truthy_or 3 (speechBurstMax cfg)
           \<le> real (length (filter (\<lambda>ts. now - ts \<le> truthy_or 20000 (speechBurstWindowMs cfg))
                              (messageTimestamps s)))"
    and "reason \<noteq> ''direct''"
  shows "\<not> fst (canBurst cfg now reason s)"
  using assms by (simp add: canBurst_def Let_def)

lemma shouldAllow_ambient_burst:
  assumes "reason \<noteq> ''direct''" "reason \<noteq> ''mention''"
    and "truthy_or 3 (speechBurstMax cfg)
           \<le> real (length (filter (\<lambda>ts. now - ts \<le> truthy_or 20000 (speechBurstWindowMs cfg))
                              (messageTimestamps s)))"
  shows "\<not> fst (shouldAllow nrm cfg now rnd reason msg plr s)"
proof -
  have "\<not> fst (canBurst cfg now reason (snd (isDuplicate nrm cfg now msg s)))"
    using assms by (intro canBurst_over) simp_all
  then show ?thesis
    using assms(1,2) by (simp add: shouldAllow_def split_beta)
qed

text \<open>
  Claim C2, evaluated at the failing input. Seven emissions lie in the burst window, which
  is beyond the ambient maximum 3 and beyond the direct maximum 6. An ambient candidate is
  rejected, and \<^verbatim>\<open>canBurst\<close> itself answers no for the reason direct; but
  \<^verbatim>\<open>shouldAllow\<close> never asks it for direct or mention, and admits both.
\<close>

theorem direct_beyond_burst_admitted:
  "length (filter (\<lambda>ts. 2000 - ts \<le> truthy_or 20000 (speechBurstWindowMs baseConfig))
      (messageTimestamps (throttle_with [] [1000, 1100, 1200, 1300, 1400, 1500, 1600]))) = 7
   \<and> truthy_or 6 (speechDirectBurstMax baseConfig) = 6
   \<and> \<not> fst (canBurst baseConfig 2000 ''direct''
              (throttle_with [] [1000, 1100, 1200, 1300, 1400, 1500, 1600]))
   \<and> \<not> fst (shouldAllow normalizeText_ascii baseConfig 2000 0 ''event'' ''hi'' None
              (throttle_with [] [1000, 1100, 1200, 1300, 1400, 1500, 1600]))
   \<and> fst (shouldAllow normalizeText_ascii baseConfig 2000 0 ''direct'' ''hi'' None
              (throttle_with [] [1000, 1100, 1200, 1300, 1400, 1500, 1600]))
   \<and> fst (shouldAllow normalizeText_ascii baseConfig 2000 0 ''mention'' ''hi'' None
              (throttle_with [] [1000, 1100, 1200, 1300, 1400, 1500, 1600]))"
  by (simp add: throttle_with_def new_speech_manager_def baseConfig_def truthy_or_def
      canBurst_def shouldAllow_direct shouldAllow_ambient_burst)

section \<open>Properties of the orchestrator\<close>

lemma markFollow_state:
  assumes "T \<noteq> []"
  shows "target (followState (markFollow cfg t0 T p)) = Some T"
    and "stickUntil (followState (markFollow cfg t0 T p)) = t0 + num_or 60000 (followStickMs cfg)"
    and "lastAny (followState (markFollow cfg t0 T p)) = t0"
  using assms by (simp_all add: markFollow_def Let_def)

lemma canFollow_other_refused:
  assumes "target (followState p) = Some T" "T \<noteq> []"
    and "isTargetVisible p T" "now < stickUntil (followState p)"
    and "nm \<noteq> []" "nm \<noteq> T"
  shows "\<not> canFollowTarget cfg now moving nm p"
  using assms by (simp add: canFollowTarget_def Let_def truthy_name_def)

lemma canFollow_same:
  assumes "target (followState p) = Some T"
  shows "canFollowTarget cfg now moving T p
     \<longleftrightarrow> \<not> (num_or 30000 (followGlobalCooldownMs cfg) > 0
            \<and> now - lastAny (followState p) < num_or 30000 (followGlobalCooldownMs cfg))"
  using assms by (simp add: canFollowTarget_def Let_def)

text \<open>
  Claim C3, as amended. After \<^verbatim>\<open>markFollow\<close> for a target \<open>T\<close> at time \<open>t0\<close>, whatever
  later scan is stored: a follow request for a different named target is refused while
  \<open>T\<close> is visible and the clock is before \<open>t0\<close> plus the stick duration; and a request
  naming \<open>T\<close> itself is admitted exactly when the global follow cooldown is disabled or
  has elapsed since \<open>t0\<close>.
\<close>

theorem follow_stickiness:
  assumes "T \<noteq> []"
  shows "(nm \<noteq> [] \<and> nm \<noteq> T
            \<and> isTargetVisible (updateLastScanPlayers ps (markFollow cfg t0 T p)) T
            \<and> now < t0 + num_or 60000 (followStickMs cfg)
            \<longrightarrow> \<not> canFollowTarget cfg now moving nm
                    (updateLastScanPlayers ps (markFollow cfg t0 T p)))
       \<and> (canFollowTarget cfg now moving T (updateLastScanPlayers ps (markFollow cfg t0 T p))
            \<longleftrightarrow> \<not> (num_or 30000 (followGlobalCooldownMs cfg) > 0
                   \<and> now - t0 < num_or 30000 (followGlobalCooldownMs cfg)))"
proof (intro conjI impI)
  let ?p = "updateLastScanPlayers ps (markFollow cfg t0 T p)"
  assume h: "nm \<noteq> [] \<and> nm \<noteq> T \<and> isTargetVisible ?p T
             \<and> now < t0 + num_or 60000 (followStickMs cfg)"
  have fs: "followState ?p = followState (markFollow cfg t0 T p)"
    by (simp add: updateLastScanPlayers_def)
  show "\<not> canFollowTarget cfg now moving nm ?p"
    using h assms by (intro canFollow_other_refused [where T = T])
      (simp_all add: fs markFollow_state)
next
  let ?p = "updateLastScanPlayers ps (markFollow cfg t0 T p)"
  have fs: "followState ?p = followState (markFollow cfg t0 T p)"
    by (simp add: updateLastScanPlayers_def)
  have "target (followState ?p) = Some T"
    using assms by (simp add: fs markFollow_state)
  from canFollow_same [OF this, of cfg now moving]
  show "canFollowTarget cfg now moving T ?p
     \<longleftrightarrow> \<not> (num_or 30000 (followGlobalCooldownMs cfg) > 0
            \<and> now - t0 < num_or 30000 (followGlobalCooldownMs cfg))"
    using assms by (simp add: fs markFollow_state)
qed

theorem follow_stickiness_witness:
  "''alex'' \<noteq> []
   \<and> isTargetVisible (updateLastScanPlayers three_nearby
         (markFollow baseConfig 1000 ''alex'' (new_planner Autonomous))) ''alex''
   \<and> \<not> canFollowTarget baseConfig 50000 False ''zoe''
         (updateLastScanPlayers three_nearby
           (markFollow baseConfig 1000 ''alex'' (new_planner Autonomous)))
   \<and> canFollowTarget baseConfig 50000 False ''alex''
         (updateLastScanPlayers three_nearby
           (markFollow baseConfig 1000 ''alex'' (new_planner Autonomous)))"
proof -
  let ?p = "updateLastScanPlayers three_nearby
              (markFollow baseConfig 1000 ''alex'' (new_planner Autonomous))"
  have n: "''alex'' \<noteq> []" by simp
  note t = follow_stickiness [OF n, where cfg = baseConfig and ?t0.0 = 1000
      and p = "new_planner Autonomous" and ps = three_nearby and now = 50000
      and moving = False and nm = "''zoe''"]
  have v: "isTargetVisible ?p ''alex''" by code_simp
  have w: "(50000::real) < 1000 + num_or 60000 (followStickMs baseConfig)"
    by (simp add: baseConfig_def num_or_def)
  have g: "\<not> (num_or 30000 (followGlobalCooldownMs baseConfig) > 0
            \<and> (50000::real) - 1000 < num_or 30000 (followGlobalCooldownMs baseConfig))"
    by (simp add: baseConfig_def num_or_def)
  have z: "''zoe'' \<noteq> [] \<and> ''zoe'' \<noteq> ''alex''" by simp
  have r: "\<not> canFollowTarget baseConfig 50000 False ''zoe'' ?p"
    using conjunct1 [OF t] v w z by (simp only: simp_thms)
  have a: "canFollowTarget baseConfig 50000 False ''alex'' ?p"
    using conjunct2 [OF t] g by (simp only: simp_thms)
  show ?thesis using n v r a by (simp only: simp_thms)
qed

theorem follow_same_target_counterexample:
  "target (followState (markFollow baseConfig 1000 ''alex'' (new_planner Autonomous)))
     = Some ''alex''
   \<and> \<not> canFollowTarget baseConfig 2000 False ''alex''
         (markFollow baseConfig 1000 ''alex'' (new_planner Autonomous))"
  by code_simp

lemma mset_rotate1_eq: "mset (rotate1 xs) = mset xs"
  by (cases xs) simp_all

lemma mset_rotate_eq: "mset (rotate n xs) = mset xs"
  by (induction n) (simp_all add: mset_rotate1_eq)

lemma distinct_map_Some: "distinct (map Some ys) = distinct ys"
  by (simp add: distinct_map)

lemma cursor_walk_is_rotate:
  assumes "xs \<noteq> []"
  shows "map (\<lambda>i. xs ! ((c + i) mod length xs)) [0..<length xs] = rotate c xs"
  by (rule nth_equalityI) (simp_all add: nth_rotate)

lemma map_insort_key:
  "map f (insort_key (\<lambda>q. k (f q)) x ys) = insort_key k (f x) (map f ys)"
  by (induction ys) simp_all

lemma map_sort_key:
  "map f (sort_key (\<lambda>q. k (f q)) xs) = sort_key k (map f xs)"
  by (induction xs) (simp_all add: map_insort_key)

lemma sorted_names_fixed:
  assumes "distinct ns" "distinct NS" "set ns = set NS" "inj_on key (set NS)"
  shows "sort_key key ns = sort_key key NS"
proof (rule sort_key_inj_key_eq)
  show "mset ns = mset (sort_key key NS)"
    using assms(1-3) by (simp add: set_eq_iff_mset_eq_distinct [symmetric])
  show "inj_on key (set ns)"
    using assms(3,4) by simp
  show "sorted (map key (sort_key key NS))"
    by (rule sorted_sort_key)
qed

lemma socialRound_names:
  assumes op: "roundOpen cfg now p"
    and d: "distinct (eligibleNames cfg muted b now p ps)"
    and s: "set (eligibleNames cfg muted b now p ps) = set NS"
    and ne: "NS \<noteq> []" and dn: "distinct NS" and inj: "inj_on key (set NS)"
  shows "map_option p_name (fst (socialRound key cfg muted b now ps p))
           = Some (sort_key key NS ! (socialIndex p mod length NS))"
    and "socialIndex (snd (socialRound key cfg muted b now ps p)) = Suc (socialIndex p)"
proof -
  let ?E = "eligiblePlayers cfg muted b now p ps"
  let ?ordered = "sort_key (\<lambda>q. key (p_name q)) ?E"
  have names: "map p_name ?ordered = sort_key key NS"
    using sorted_names_fixed [OF d dn s inj]
    by (simp add: map_sort_key eligibleNames_def)
  have len: "length ?ordered = length NS"
    using arg_cong [OF names, of length] by simp
  have lenE: "length ?E = length NS"
    using len by simp
  have E: "?E \<noteq> []"
    using lenE ne by auto
  have idx: "socialIndex p mod length ?ordered < length ?ordered"
    using len ne by simp
  have sel: "fst (socialRound key cfg muted b now ps p)
               = Some (?ordered ! (socialIndex p mod length ?ordered))"
    using op E by (simp add: socialRound_def getSocialTarget_def roundOpen_def Let_def)
  have "p_name (?ordered ! (socialIndex p mod length ?ordered))
          = map p_name ?ordered ! (socialIndex p mod length ?ordered)"
    using idx by (rule nth_map [symmetric])
  then show "map_option p_name (fst (socialRound key cfg muted b now ps p))
           = Some (sort_key key NS ! (socialIndex p mod length NS))"
    by (simp add: sel names lenE)
  show "socialIndex (snd (socialRound key cfg muted b now ps p)) = Suc (socialIndex p)"
    using op E
    by (simp add: socialRound_def getSocialTarget_def roundOpen_def Let_def
          markSocialSpoke_def markPlayerSpoke_def)
qed

lemma rotations_walk:
  assumes "NS \<noteq> []" "distinct NS" "inj_on key (set NS)"
    and "names_fixed key cfg muted b NS p rounds"
  shows "map (map_option p_name) (rotations key cfg muted b p rounds)
           = map (\<lambda>i. Some (sort_key key NS ! ((socialIndex p + i) mod length NS)))
               [0..<length rounds]"
  using assms(4)
proof (induction rounds arbitrary: p)
  case Nil
  then show ?case by simp
next
  case (Cons r rounds)
  obtain now ps where r: "r = (now, ps)" by (cases r)
  let ?p' = "snd (socialRound key cfg muted b now ps p)"
  from Cons.prems r have op: "roundOpen cfg now p"
    and d: "distinct (eligibleNames cfg muted b now p ps)"
    and s: "set (eligibleNames cfg muted b now p ps) = set NS"
    and rest: "names_fixed key cfg muted b NS ?p' rounds"
    by simp_all
  note sr = socialRound_names [OF op d s assms(1,2,3)]
  have "map (map_option p_name) (rotations key cfg muted b ?p' rounds)
          = map (\<lambda>i. Some (sort_key key NS ! ((socialIndex ?p' + i) mod length NS)))
              [0..<length rounds]"
    using rest by (rule Cons.IH)
  then show ?case
    by (simp add: r sr upt_conv_Cons map_Suc_upt [symmetric] del: upt_Suc)
qed

text \<open>
  Claim C4. Let the round gate be open and the eligible candidates be the same \<open>N\<close>
  players, pairwise different in name and in collation key, at each of \<open>N\<close> consecutive
  successful rotations; the players may move and the scan may list them in another order
  from one round to the next. Then the names selected are the sorted names read
  cyclically from the cursor: each of the \<open>N\<close> players is selected exactly once, and
  none is selected twice.
\<close>

theorem round_robin_fair:
  assumes "NS \<noteq> []" "distinct NS" "inj_on key (set NS)" "length rounds = length NS"
    and "names_fixed key cfg muted b NS p rounds"
  shows "map (map_option p_name) (rotations key cfg muted b p rounds)
           = map Some (rotate (socialIndex p) (sort_key key NS))
       \<and> mset (map (map_option p_name) (rotations key cfg muted b p rounds))
           = mset (map Some NS)
       \<and> distinct (map (map_option p_name) (rotations key cfg muted b p rounds))"
proof -
  let ?sorted = "sort_key key NS"
  let ?sel = "map (map_option p_name) (rotations key cfg muted b p rounds)"
  have ne: "?sorted \<noteq> []"
    using assms(1) by (metis length_sort length_0_conv)
  have "?sel = map (\<lambda>i. Some (?sorted ! ((socialIndex p + i) mod length NS))) [0..<length rounds]"
    using assms(1,2,3,5) by (rule rotations_walk)
  also have "\<dots> = map Some (map (\<lambda>i. ?sorted ! ((socialIndex p + i) mod length ?sorted))
                                 [0..<length ?sorted])"
    by (simp add: assms(4))
  also have "\<dots> = map Some (rotate (socialIndex p) ?sorted)"
    using cursor_walk_is_rotate [OF ne] by simp
  finally have walk: "?sel = map Some (rotate (socialIndex p) ?sorted)" .
  have perm: "mset ?sel = mset (map Some NS)"
    by (simp add: walk mset_rotate_eq)
  have "distinct (rotate (socialIndex p) ?sorted)"
    using assms(2) by simp
  then have "distinct (map Some (rotate (socialIndex p) ?sorted))"
    by (simp only: distinct_map_Some)
  then have dist: "distinct ?sel"
    by (simp only: walk)
  show ?thesis
    using walk perm dist by simp
qed

theorem round_robin_fair_witness:
  "names_fixed (\<lambda>s. s) baseConfig (\<lambda>n. False) (bot_with []) [''zoe'', ''alex'', ''mia'']
     (new_planner Autonomous) moving_rounds
   \<and> rotations (\<lambda>s. s) baseConfig (\<lambda>n. False) (bot_with []) (new_planner Autonomous)
       moving_rounds
     = [Some (seen ''alex'' 3), Some (seen ''mia'' 4), Some (seen ''zoe'' 9)]
   \<and> map (map_option p_name)
       (rotations (\<lambda>s. s) baseConfig (\<lambda>n. False) (bot_with []) (new_planner Autonomous)
          moving_rounds)
     = [Some ''alex'', Some ''mia'', Some ''zoe'']"
proof -
  let ?NS = "[''zoe'', ''alex'', ''mia'']"
  have e: "?NS \<noteq> []" by simp
  have d: "distinct ?NS" by simp
  have i: "inj_on (\<lambda>s::string. s) (set ?NS)" by (rule inj_on_id2)
  have l: "length moving_rounds = length ?NS" by (simp add: moving_rounds_def)
  have f: "names_fixed (\<lambda>s. s) baseConfig (\<lambda>n. False) (bot_with []) ?NS
             (new_planner Autonomous) moving_rounds"
    by code_simp
  have r: "rotations (\<lambda>s. s) baseConfig (\<lambda>n. False) (bot_with []) (new_planner Autonomous)
       moving_rounds
     = [Some (seen ''alex'' 3), Some (seen ''mia'' 4), Some (seen ''zoe'' 9)]"
    by code_simp
  have s: "map Some (rotate (socialIndex (new_planner Autonomous)) (sort_key (\<lambda>s. s) ?NS))
             = [Some ''alex'', Some ''mia'', Some ''zoe'']"
    by code_simp
  from round_robin_fair [OF e d i l f] s f r show ?thesis by simp
qed

section \<open>Properties of the autonomous step\<close>

lemma emit_simps [simp]:
  "pl (emit ev a) = pl a"
  "speech (emit ev a) = speech a"
  "director (emit ev a) = director a"
  "effects (emit ev a) = effects a @ [ev]"
  by (simp_all add: emit_def)

lemma say_pl [simp]: "pl (snd (say cfg env st msg reason plr a)) = pl a"
  by (simp add: say_def split: option.split prod.split)

lemma say_chats [simp]:
  "filter is_decision_chat (effects (snd (say cfg env FailureNotice msg reason plr a)))
     = filter is_decision_chat (effects a)"
  by (simp add: say_def split: option.split prod.split)

lemma markFollow_social [simp]:
  "social_fields (markFollow cfg now nm p) = social_fields p"
  by (simp add: markFollow_def social_fields_def Let_def)

lemma startMining_frame [simp]:
  "pl (startMining args a) = pl a"
  "filter is_decision_chat (effects (startMining args a)) = filter is_decision_chat (effects a)"
  by (simp_all add: startMining_def split: option.split)

lemma startGatherWood_frame [simp]:
  "pl (startGatherWood args a) = pl a"
  "filter is_decision_chat (effects (startGatherWood args a))
     = filter is_decision_chat (effects a)"
  by (simp_all add: startGatherWood_def)

lemma startFarm_frame [simp]:
  "pl (startFarm args a) = pl a"
  "filter is_decision_chat (effects (startFarm args a)) = filter is_decision_chat (effects a)"
  by (simp_all add: startFarm_def)

lemma followAction_frame [simp]:
  "social_fields (pl (followAction cfg env reason args a)) = social_fields (pl a)"
  "filter is_decision_chat (effects (followAction cfg env reason args a))
     = filter is_decision_chat (effects a)"
  by (simp_all add: followAction_def Let_def split: option.split)

lemma callSkill_frame [simp]:
  "pl (callSkill cfg env reason plr nm args a) = pl a"
  "filter is_decision_chat (effects (callSkill cfg env reason plr nm args a))
     = filter is_decision_chat (effects a)"
  by (simp_all add: callSkill_def split: skill_outcome.split)

lemma run_action_social [simp]:
  "social_fields (pl (run_action cfg env reason plr x a)) = social_fields (pl a)"
  by (simp add: run_action_def Let_def)

lemma run_action_chats [simp]:
  "filter is_decision_chat (effects (run_action cfg env reason plr x a))
     = filter is_decision_chat (effects a)"
  by (simp add: run_action_def Let_def)

lemma run_actions_social [simp]:
  "social_fields (pl (run_actions cfg env reason plr xs a)) = social_fields (pl a)"
  by (induction xs arbitrary: a) simp_all

lemma run_actions_chats [simp]:
  "filter is_decision_chat (effects (run_actions cfg env reason plr xs a))
     = filter is_decision_chat (effects a)"
  by (induction xs arbitrary: a) simp_all


lemma updateLastScanPlayers_frame [simp]:
  "social_fields (updateLastScanPlayers ps p) = social_fields p"
  "lastLLMAt (updateLastScanPlayers ps p) = lastLLMAt p"
  "lastAutonomousDecisionAt (updateLastScanPlayers ps p) = lastAutonomousDecisionAt p"
  "mode (updateLastScanPlayers ps p) = mode p"
  by (simp_all add: updateLastScanPlayers_def social_fields_def)

lemma observe_frame [simp]:
  "pl (observe cfg env a) = updateLastScanPlayers (nearbyOf cfg (e_scan env)) (pl a)"
  "effects (observe cfg env a) = effects a"
  by (simp_all add: observe_def Let_def)

lemma survive_frame [simp]:
  "pl (snd (survive cfg env a)) = pl a"
  "filter is_decision_chat (effects (snd (survive cfg env a)))
     = filter is_decision_chat (effects a)"
  by (simp_all add: survive_def split: prod.split option.split)

lemma survive_idle: "\<not> fst (survive cfg env a) \<Longrightarrow> effects (snd (survive cfg env a)) = effects a"
  by (simp add: survive_def split: prod.splits option.splits)

lemma survivalStage_frame [simp]:
  "pl (snd (survivalStage cfg env a))
     = updateLastScanPlayers (nearbyOf cfg (e_scan env)) (pl a)"
  "filter is_decision_chat (effects (snd (survivalStage cfg env a)))
     = filter is_decision_chat (effects a)"
  by (simp_all add: survivalStage_def Let_def)

lemma survivalStage_idle:
  assumes "\<not> fst (survivalStage cfg env a)"
  shows "effects (snd (survivalStage cfg env a)) = effects a"
proof (cases "mode (pl (observe cfg env a)) = Survival
              \<or> (nearbyOf cfg (e_scan env) = [] \<and> not_false (autonomousSurvivalEnabled cfg))")
  case True
  then have eq: "survivalStage cfg env a = survive cfg env (observe cfg env a)"
    by (simp add: survivalStage_def Let_def)
  with assms have "\<not> fst (survive cfg env (observe cfg env a))" by simp
  then have "effects (snd (survive cfg env (observe cfg env a))) = effects (observe cfg env a)"
    by (rule survive_idle)
  then show ?thesis by (simp add: eq)
next
  case False
  then have "survivalStage cfg env a = (False, observe cfg env a)"
    by (auto simp add: survivalStage_def Let_def)
  then show ?thesis by simp
qed

lemma pickupDrops_frame [simp]:
  "pl (pickupDrops cfg env a) = pl a"
  "filter is_decision_chat (effects (pickupDrops cfg env a))
     = filter is_decision_chat (effects a)"
  by (simp_all add: pickupDrops_def Let_def)

lemma idle_frame [simp]:
  "pl (idle cfg env solo a) = pl a"
  "filter is_decision_chat (effects (idle cfg env solo a))
     = filter is_decision_chat (effects a)"
  by (simp_all add: idle_def Let_def)

lemma shouldQueryLLM_social [simp]:
  "social_fields (snd (shouldQueryLLM cfg now force p)) = social_fields p"
  by (simp add: shouldQueryLLM_def Let_def social_fields_def)

lemma shouldAutonomousDecision_social [simp]:
  "social_fields (snd (shouldAutonomousDecision cfg now p)) = social_fields p"
  by (simp add: shouldAutonomousDecision_def Let_def social_fields_def)

lemma gate_shape:
  assumes "survivalStage cfg env a = (acted, a2)"
    and "shouldQueryLLM cfg (e_clock env) False (pl a2) = (q3, p3)"
    and "shouldAutonomousDecision cfg (e_clock env) p3 = (q4, p4)"
  shows "gate cfg env a = Inl a2
       \<or> gate cfg env a = Inl (idle cfg env (nearbyOf cfg (e_scan env) = []) (a2\<lparr>pl := p3\<rparr>))
       \<or> gate cfg env a = Inl (a2\<lparr>pl := p4\<rparr>)
       \<or> gate cfg env a = Inr (a2\<lparr>pl := p4\<rparr>)"
  by (cases q3; cases q4) (simp_all add: gate_def Let_def assms)

lemma gate_frame:
  assumes "gate cfg env a = Inl a1 \<or> gate cfg env a = Inr a1"
  shows "social_fields (pl a1) = social_fields (pl a)"
    and "filter is_decision_chat (effects a1) = filter is_decision_chat (effects a)"
proof -
  obtain acted a2 where st: "survivalStage cfg env a = (acted, a2)"
    by (cases "survivalStage cfg env a")
  obtain q3 p3 where ql: "shouldQueryLLM cfg (e_clock env) False (pl a2) = (q3, p3)"
    by (cases "shouldQueryLLM cfg (e_clock env) False (pl a2)")
  obtain q4 p4 where qd: "shouldAutonomousDecision cfg (e_clock env) p3 = (q4, p4)"
    by (cases "shouldAutonomousDecision cfg (e_clock env) p3")
  have a2: "social_fields (pl a2) = social_fields (pl a)"
    "filter is_decision_chat (effects a2) = filter is_decision_chat (effects a)"
    using survivalStage_frame [of cfg env a] by (simp_all add: st)
  have p3: "social_fields p3 = social_fields (pl a)"
    using shouldQueryLLM_social [of cfg "e_clock env" False "pl a2"] by (simp add: ql a2)
  have p4: "social_fields p4 = social_fields (pl a)"
    using shouldAutonomousDecision_social [of cfg "e_clock env" p3] by (simp add: qd p3)
  have "social_fields (pl a1) = social_fields (pl a)
        \<and> filter is_decision_chat (effects a1) = filter is_decision_chat (effects a)"
    using assms gate_shape [OF st ql qd] a2 p3 p4 by auto
  then show "social_fields (pl a1) = social_fields (pl a)"
    and "filter is_decision_chat (effects a1) = filter is_decision_chat (effects a)"
    by simp_all
qed

lemma shouldQueryLLM_cases:
  "(force \<or> (0 < truthy_or 0 (chatCooldown cfg)
              \<and> truthy_or 0 (chatCooldown cfg) \<le> now - lastLLMAt p)
      \<longrightarrow> shouldQueryLLM cfg now force p = (True, p\<lparr>lastLLMAt := now\<rparr>))
   \<and> (\<not> force \<and> truthy_or 0 (chatCooldown cfg) \<le> 0
      \<longrightarrow> shouldQueryLLM cfg now force p = (True, p))
   \<and> (\<not> force \<and> 0 < truthy_or 0 (chatCooldown cfg)
         \<and> now - lastLLMAt p < truthy_or 0 (chatCooldown cfg)
      \<longrightarrow> shouldQueryLLM cfg now force p = (False, p))"
  by (simp add: shouldQueryLLM_def Let_def)

lemma step_blocked_by_decision_gate:
  assumes "\<not> fst (survivalStage cfg env a)"
    and "0 < truthy_or 0 (chatCooldown cfg)"
    and "truthy_or 0 (chatCooldown cfg) \<le> e_clock env - lastLLMAt (pl a)"
    and "0 < truthy_or 0 (autonomousDecisionCooldownMs cfg)"
    and "e_clock env - lastAutonomousDecisionAt (pl a)
           < truthy_or 0 (autonomousDecisionCooldownMs cfg)"
  shows "lastLLMAt (pl (autonomousStep cfg env a)) = e_clock env"
    and "lastAutonomousDecisionAt (pl (autonomousStep cfg env a))
           = lastAutonomousDecisionAt (pl a)"
    and "effects (autonomousStep cfg env a) = effects a"
proof -
  obtain acted a2 where st: "survivalStage cfg env a = (acted, a2)"
    by (cases "survivalStage cfg env a")
  have na: "\<not> acted" using assms(1) by (simp add: st)
  have pl2: "pl a2 = updateLastScanPlayers (nearbyOf cfg (e_scan env)) (pl a)"
    using survivalStage_frame(1) [of cfg env a] by (simp add: st)
  have ef2: "effects a2 = effects a"
    using survivalStage_idle [OF assms(1)] by (simp add: st)
  have ql: "shouldQueryLLM cfg (e_clock env) False (pl a2)
              = (True, (pl a2)\<lparr>lastLLMAt := e_clock env\<rparr>)"
    using assms(2,3) by (simp add: shouldQueryLLM_def Let_def pl2)
  have qd: "shouldAutonomousDecision cfg (e_clock env) ((pl a2)\<lparr>lastLLMAt := e_clock env\<rparr>)
              = (False, (pl a2)\<lparr>lastLLMAt := e_clock env\<rparr>)"
    using assms(4,5) by (simp add: shouldAutonomousDecision_def Let_def pl2)
  have g: "gate cfg env a = Inl (a2\<lparr>pl := (pl a2)\<lparr>lastLLMAt := e_clock env\<rparr>\<rparr>)"
    by (simp add: gate_def Let_def st na ql qd)
  show "lastLLMAt (pl (autonomousStep cfg env a)) = e_clock env"
    by (simp add: autonomousStep_def g)
  show "lastAutonomousDecisionAt (pl (autonomousStep cfg env a))
          = lastAutonomousDecisionAt (pl a)"
    by (simp add: autonomousStep_def g pl2)
  show "effects (autonomousStep cfg env a) = effects a"
    by (simp add: autonomousStep_def g ef2)
qed

lemma consult_solo:
  assumes "nearbyOf cfg (e_scan env) = []" "e_backend env = Some d"
  shows "consult cfg env a
           = pickupDrops cfg env
               (run_actions cfg env ''autonomous'' None (actions d)
                  (emit (Query (mode (pl a))) a))"
  using assms
  by (simp add: consult_def Let_def socialise_def executeDecision_def offerChat_def)

lemma consult_solo_chats:
  assumes "nearbyOf cfg (e_scan env) = []"
  shows "filter is_decision_chat (effects (consult cfg env a))
           = filter is_decision_chat (effects a)"
proof (cases "e_backend env")
  case None
  then show ?thesis by (simp add: consult_def Let_def)
next
  case (Some d)
  show ?thesis by (simp add: consult_solo [OF assms Some])
qed

lemma run_action_plain:
  assumes "plainSkill env x"
  shows "run_action cfg env reason plr x a = emit (Skill (a_name x) (a_args x) False) a"
  using assms by (simp add: plainSkill_def run_action_def callSkill_def Let_def)

lemma run_actions_plain:
  assumes "list_all (plainSkill env) xs"
  shows "run_actions cfg env reason plr xs a
           = a\<lparr>effects := effects a @ map (\<lambda>x. Skill (a_name x) (a_args x) False) xs\<rparr>"
  using assms
proof (induction xs arbitrary: a)
  case Nil
  then show ?case by simp
next
  case (Cons x xs)
  then show ?case by (simp add: run_action_plain emit_def)
qed

text \<open>
  Claim C9, as amended. In a step without a qualifying nearby player the decision's chat
  field is discarded: no effect offers or sends it, whatever the backend returns. When
  the backend is consulted and returns a decision, the step is the query, the dispatch of
  the decision's actions in order, and the final pickup of drops; in particular every
  action that names a skill which exists and returns, the speech tools \<^verbatim>\<open>say\<close>,
  \<^verbatim>\<open>whisper\<close> and \<^verbatim>\<open>reply_to\<close> among them, is called with the arguments the backend gave.
\<close>

theorem solo_chat_field_discarded:
  assumes "nearbyOf cfg (e_scan env) = []"
  shows "filter is_decision_chat (effects (autonomousStep cfg env a))
           = filter is_decision_chat (effects a)
       \<and> (gate cfg env a = Inr a0 \<and> e_backend env = Some d
            \<longrightarrow> autonomousStep cfg env a
                  = pickupDrops cfg env
                      (run_actions cfg env ''autonomous'' None (actions d)
                         (emit (Query (mode (pl a0))) a0)))
       \<and> (gate cfg env a = Inr a0 \<and> e_backend env = Some d
            \<and> list_all (plainSkill env) (actions d)
            \<longrightarrow> autonomousStep cfg env a
                  = pickupDrops cfg env
                      (a0\<lparr>effects := effects a0 @ Query (mode (pl a0))
                              # map (\<lambda>x. Skill (a_name x) (a_args x) False) (actions d)\<rparr>))"
proof (intro conjI impI)
  show "filter is_decision_chat (effects (autonomousStep cfg env a))
          = filter is_decision_chat (effects a)"
  proof (cases "gate cfg env a")
    case (Inl a1)
    then show ?thesis
      using gate_frame(2) [of cfg env a a1] by (simp add: autonomousStep_def)
  next
    case (Inr a1)
    then show ?thesis
      using gate_frame(2) [of cfg env a a1] consult_solo_chats [OF assms, of a1]
      by (simp add: autonomousStep_def)
  qed
next
  assume "gate cfg env a = Inr a0 \<and> e_backend env = Some d"
  then show "autonomousStep cfg env a
               = pickupDrops cfg env
                   (run_actions cfg env ''autonomous'' None (actions d)
                      (emit (Query (mode (pl a0))) a0))"
    using consult_solo [OF assms, of d a0] by (simp add: autonomousStep_def)
next
  assume h: "gate cfg env a = Inr a0 \<and> e_backend env = Some d
               \<and> list_all (plainSkill env) (actions d)"
  then have "autonomousStep cfg env a
               = pickupDrops cfg env
                   (run_actions cfg env ''autonomous'' None (actions d)
                      (emit (Query (mode (pl a0))) a0))"
    using consult_solo [OF assms, of d a0] by (simp add: autonomousStep_def)
  moreover have "run_actions cfg env ''autonomous'' None (actions d)
                   (emit (Query (mode (pl a0))) a0)
                 = a0\<lparr>effects := effects a0 @ Query (mode (pl a0))
                         # map (\<lambda>x. Skill (a_name x) (a_args x) False) (actions d)\<rparr>"
    using h by (simp add: run_actions_plain emit_def)
  ultimately show "autonomousStep cfg env a
               = pickupDrops cfg env
                   (a0\<lparr>effects := effects a0 @ Query (mode (pl a0))
                           # map (\<lambda>x. Skill (a_name x) (a_args x) False) (actions d)\<rparr>)"
    by (simp only:)
qed

lemma getSocialTarget_named:
  assumes "getSocialTarget key cfg muted b now p ps = Some tgt"
  shows "p_name tgt \<noteq> []" and "ps \<noteq> []"
proof -
  let ?E = "eligiblePlayers cfg muted b now p ps"
  let ?S = "sort_key (\<lambda>q. key (p_name q)) ?E"
  from assms have ne: "?E \<noteq> []" and tg: "tgt = ?S ! (socialIndex p mod length ?S)"
    by (auto simp: getSocialTarget_def Let_def split: if_splits)
  have "socialIndex p mod length ?S < length ?S"
    using ne by simp
  then have "tgt \<in> set ?S" unfolding tg by (rule nth_mem)
  then have mem: "tgt \<in> set ?E" by simp
  then show "p_name tgt \<noteq> []"
    by (simp add: eligiblePlayers_def Let_def)
  from ne show "ps \<noteq> []"
    by (auto simp: eligiblePlayers_def Let_def)
qed

lemma addressTarget_nonempty: "c \<noteq> [] \<Longrightarrow> addressTarget env tgt c \<noteq> []"
  by (simp add: addressTarget_def)

lemma social_fields_marked:
  assumes "nm \<noteq> []"
  shows "social_fields (markPlayerSpoke now nm (markSocialSpoke now p))
           = (Suc (socialIndex p), now, (lastSpokeAt p)(nm \<mapsto> now))"
  using assms by (simp add: social_fields_def markPlayerSpoke_def markSocialSpoke_def)

lemma consult_social:
  assumes tg: "getSocialTarget (e_key env) cfg (e_muted env) (e_bot env) (e_clock env)
                 (pl a0) (nearbyOf cfg (e_scan env)) = Some tgt"
    and be: "e_backend env = Some d" and ch: "chat d = Some c" and ne: "c \<noteq> []"
    and sp: "speech a0 = Some sm"
    and en: "enqueue (e_normalize env) cfg (e_speech env (Suc (length (effects a0))))
               (addressTarget env tgt c) ''autonomous'' (Some (p_name tgt)) sm = (sent, sm1)"
  shows "social_fields (pl (consult cfg env a0))
           = (if sent
              then (Suc (socialIndex (pl a0)), e_clock env,
                    (lastSpokeAt (pl a0))(p_name tgt \<mapsto> e_clock env))
              else social_fields (pl a0))"
proof -
  note nm = getSocialTarget_named [OF tg]
  let ?a1 = "emit (Query (mode (pl a0))) a0"
  let ?txt = "addressTarget env tgt c"
  let ?d2 = "d\<lparr>chat := Some ?txt\<rparr>"
  have so: "socialise env (Some tgt) d = (True, ?d2)"
    using ch ne by (simp add: socialise_def)
  have sy: "say cfg env DecisionChat ?txt ''autonomous'' (Some (p_name tgt)) ?a1
              = (sent, emit (Offer DecisionChat ?txt ''autonomous'' (Some (p_name tgt)) sent)
                         (?a1\<lparr>speech := Some sm1\<rparr>))"
    using sp en by (simp add: say_def)
  have oc: "offerChat cfg env ?d2 ''autonomous'' (Some (p_name tgt)) ?a1
              = (if sent then Some ?txt else None,
                 emit (Offer DecisionChat ?txt ''autonomous'' (Some (p_name tgt)) sent)
                   (?a1\<lparr>speech := Some sm1\<rparr>))"
    using nm(1) by (simp add: offerChat_def sy truthy_name_def)
  obtain a2 where ex: "executeDecision cfg env ?d2 ''autonomous'' (Some (p_name tgt)) ?a1
              = (if sent then Some ?txt else None, a2)"
    and fr: "social_fields (pl a2) = social_fields (pl a0)"
    by (simp add: executeDecision_def oc)
  have si: "socialIndex (pl a2) = socialIndex (pl a0)"
    and ls: "lastSpokeAt (pl a2) = lastSpokeAt (pl a0)"
    using fr by (simp_all add: social_fields_def)
  have tr: "truthy_name (if sent then Some ?txt else None) = sent"
    using addressTarget_nonempty [OF ne, of env tgt] by (simp add: truthy_name_def)
  have "consult cfg env a0
          = pickupDrops cfg env
              (if sent
               then a2\<lparr>pl := markPlayerSpoke (e_clock env) (p_name tgt)
                                (markSocialSpoke (e_clock env) (pl a2))\<rparr>
               else a2)"
    using nm(2) by (simp add: consult_def Let_def tg be so ex tr)
  then show ?thesis
    using nm(1) by (simp add: social_fields_marked fr si ls)
qed

text \<open>
  Claim C7. Let the step reach the consultation, a social target be selected, the
  backend return a decision with a non-empty chat text, and a throttle be attached. If
  the throttle rejects the addressed utterance, the cursor, the round timestamp and the
  per-player record are after the step what they were before it; if it accepts, the cursor
  has advanced by one, and the round timestamp and the target's entry of the per-player
  record are the clock reading.
\<close>

theorem social_turn_only_on_acceptance:
  assumes "gate cfg env a = Inr a0"
    and "getSocialTarget (e_key env) cfg (e_muted env) (e_bot env) (e_clock env)
           (pl a0) (nearbyOf cfg (e_scan env)) = Some tgt"
    and "e_backend env = Some d" and "chat d = Some c" and "c \<noteq> []"
    and "speech a0 = Some sm"
  shows "(\<not> fst (enqueue (e_normalize env) cfg (e_speech env (Suc (length (effects a0))))
                  (addressTarget env tgt c) ''autonomous'' (Some (p_name tgt)) sm)
            \<longrightarrow> social_fields (pl (autonomousStep cfg env a)) = social_fields (pl a))
       \<and> (fst (enqueue (e_normalize env) cfg (e_speech env (Suc (length (effects a0))))
                  (addressTarget env tgt c) ''autonomous'' (Some (p_name tgt)) sm)
            \<longrightarrow> social_fields (pl (autonomousStep cfg env a))
                  = (Suc (socialIndex (pl a)), e_clock env,
                     (lastSpokeAt (pl a))(p_name tgt \<mapsto> e_clock env)))"
proof -
  obtain sent sm1 where en:
    "enqueue (e_normalize env) cfg (e_speech env (Suc (length (effects a0))))
       (addressTarget env tgt c) ''autonomous'' (Some (p_name tgt)) sm = (sent, sm1)"
    by (cases "enqueue (e_normalize env) cfg (e_speech env (Suc (length (effects a0))))
                 (addressTarget env tgt c) ''autonomous'' (Some (p_name tgt)) sm")
  have fr: "social_fields (pl a0) = social_fields (pl a)"
    using gate_frame(1) [of cfg env a a0] assms(1) by simp
  then have si: "socialIndex (pl a0) = socialIndex (pl a)"
    and ls: "lastSpokeAt (pl a0) = lastSpokeAt (pl a)"
    by (simp_all add: social_fields_def)
  have "social_fields (pl (autonomousStep cfg env a))
          = (if sent
             then (Suc (socialIndex (pl a0)), e_clock env,
                   (lastSpokeAt (pl a0))(p_name tgt \<mapsto> e_clock env))
             else social_fields (pl a0))"
    using consult_social [OF assms(2-6) en] assms(1) by (simp add: autonomousStep_def)
  then show ?thesis
    by (simp add: en fr si ls)
qed

text \<open>
  Claim C10, as amended. \<^verbatim>\<open>shouldQueryLLM\<close> answers yes and sets its timestamp to the
  clock when forced and when a positive cooldown has elapsed; with the cooldown disabled
  (not positive) and no force it answers yes and leaves the timestamp as it is; otherwise it
  answers no. In a step in which the progression planner does not act, a positive query
  cooldown has elapsed and the decision cooldown has not, the query timestamp becomes the
  clock although the step has no effect at all: the backend is not called.
\<close>

theorem query_cooldown_consumed:
  "(force \<or> (0 < truthy_or 0 (chatCooldown cfg)
              \<and> truthy_or 0 (chatCooldown cfg) \<le> now - lastLLMAt p)
      \<longrightarrow> shouldQueryLLM cfg now force p = (True, p\<lparr>lastLLMAt := now\<rparr>))
   \<and> (\<not> force \<and> truthy_or 0 (chatCooldown cfg) \<le> 0
      \<longrightarrow> shouldQueryLLM cfg now force p = (True, p))
   \<and> (\<not> force \<and> 0 < truthy_or 0 (chatCooldown cfg)
         \<and> now - lastLLMAt p < truthy_or 0 (chatCooldown cfg)
      \<longrightarrow> shouldQueryLLM cfg now force p = (False, p))
   \<and> (\<not> fst (survivalStage cfg env a)
         \<and> 0 < truthy_or 0 (chatCooldown cfg)
         \<and> truthy_or 0 (chatCooldown cfg) \<le> e_clock env - lastLLMAt (pl a)
         \<and> 0 < truthy_or 0 (autonomousDecisionCooldownMs cfg)
         \<and> e_clock env - lastAutonomousDecisionAt (pl a)
              < truthy_or 0 (autonomousDecisionCooldownMs cfg)
      \<longrightarrow> lastLLMAt (pl (autonomousStep cfg env a)) = e_clock env
          \<and> lastAutonomousDecisionAt (pl (autonomousStep cfg env a))
              = lastAutonomousDecisionAt (pl a)
          \<and> effects (autonomousStep cfg env a) = effects a)"
proof -
  have gates: "(force \<or> (0 < truthy_or 0 (chatCooldown cfg)
              \<and> truthy_or 0 (chatCooldown cfg) \<le> now - lastLLMAt p)
      \<longrightarrow> shouldQueryLLM cfg now force p = (True, p\<lparr>lastLLMAt := now\<rparr>))
   \<and> (\<not> force \<and> truthy_or 0 (chatCooldown cfg) \<le> 0
      \<longrightarrow> shouldQueryLLM cfg now force p = (True, p))
   \<and> (\<not> force \<and> 0 < truthy_or 0 (chatCooldown cfg)
         \<and> now - lastLLMAt p < truthy_or 0 (chatCooldown cfg)
      \<longrightarrow> shouldQueryLLM cfg now force p = (False, p))"
    by (rule shouldQueryLLM_cases)
  have blocked: "\<not> fst (survivalStage cfg env a)
         \<and> 0 < truthy_or 0 (chatCooldown cfg)
         \<and> truthy_or 0 (chatCooldown cfg) \<le> e_clock env - lastLLMAt (pl a)
         \<and> 0 < truthy_or 0 (autonomousDecisionCooldownMs cfg)
         \<and> e_clock env - lastAutonomousDecisionAt (pl a)
              < truthy_or 0 (autonomousDecisionCooldownMs cfg)
      \<longrightarrow> lastLLMAt (pl (autonomousStep cfg env a)) = e_clock env
          \<and> lastAutonomousDecisionAt (pl (autonomousStep cfg env a))
              = lastAutonomousDecisionAt (pl a)
          \<and> effects (autonomousStep cfg env a) = effects a"
    using step_blocked_by_decision_gate [of cfg env a] by blast
  from gates blocked show ?thesis by (intro conjI) (erule conjunct1, erule conjunct2 [THEN conjunct1], erule conjunct2 [THEN conjunct2], assumption)
qed

lemma early_throttle_example_consults:
  "\<not> isl (gate baseConfig (quiet_env 600000 three_nearby (Some hello_jump))
            (fresh_agent Autonomous 400000))"
  by code_simp

lemma due_throttle_example_consults:
  "\<not> isl (gate baseConfig (quiet_env 600000 three_nearby (Some hello_jump))
            (fresh_agent Autonomous 0))"
  by code_simp

lemma solo_say_example_consults:
  "\<not> isl (gate social_config (quiet_env 30000 [] (Some hello_say_jump)) (fresh_agent Autonomous 0))"
  by code_simp

lemma solo_tasks_example_consults:
  "\<not> isl (gate follow_config (quiet_env 30000 [] (Some hello_tasks)) (fresh_agent Autonomous 0))"
  by code_simp

theorem solo_chat_field_discarded_witness:
  "nearbyOf social_config (e_scan (quiet_env 30000 [] (Some hello_say_jump))) = []
   \<and> \<not> isl (gate social_config (quiet_env 30000 [] (Some hello_say_jump))
              (fresh_agent Autonomous 0))
   \<and> chat hello_say_jump = Some ''hello''
   \<and> list_all (plainSkill (quiet_env 30000 [] (Some hello_say_jump))) (actions hello_say_jump)
   \<and> filter is_decision_chat
        (effects (autonomousStep social_config (quiet_env 30000 [] (Some hello_say_jump))
                    (fresh_agent Autonomous 0))) = []
   \<and> effects (autonomousStep social_config (quiet_env 30000 [] (Some hello_say_jump))
                 (fresh_agent Autonomous 0))
       = [Query Autonomous, Skill ''say'' (no_args\<lparr>arg_text := Some ''hello''\<rparr>) False,
          Skill ''jump'' no_args False]
   \<and> nearbyOf follow_config (e_scan (quiet_env 30000 [] (Some hello_tasks))) = []
   \<and> \<not> isl (gate follow_config (quiet_env 30000 [] (Some hello_tasks))
              (fresh_agent Autonomous 0))
   \<and> effects (autonomousStep follow_config (quiet_env 30000 [] (Some hello_tasks))
                 (fresh_agent Autonomous 0))
       = [Query Autonomous, Started (Mine ''stone'' 5), Started (Farm None),
          Followed ''alex'' (no_args\<lparr>arg_entity_name := Some ''alex''\<rparr>),
          Skill ''say'' (no_args\<lparr>arg_text := Some ''hello''\<rparr>) False]"
proof -
  let ?env = "quiet_env 30000 [] (Some hello_say_jump)"
  let ?env' = "quiet_env 30000 [] (Some hello_tasks)"
  let ?a = "fresh_agent Autonomous 0"
  let ?ready = "projr (gate social_config ?env ?a)"
  let ?ready' = "projr (gate follow_config ?env' ?a)"
  have solo: "nearbyOf social_config (e_scan ?env) = []"
    by code_simp
  have solo': "nearbyOf follow_config (e_scan ?env') = []"
    by code_simp
  have go: "\<not> isl (gate social_config ?env ?a)"
    by (rule solo_say_example_consults)
  have go': "\<not> isl (gate follow_config ?env' ?a)"
    by (rule solo_tasks_example_consults)
  have g: "gate social_config ?env ?a = Inr ?ready"
    by (rule sum.collapse(2) [OF go, symmetric])
  have g': "gate follow_config ?env' ?a = Inr ?ready'"
    by (rule sum.collapse(2) [OF go', symmetric])
  have b: "e_backend ?env = Some hello_say_jump"
    by (simp add: quiet_env_def)
  have b': "e_backend ?env' = Some hello_tasks"
    by (simp add: quiet_env_def)
  have c: "chat hello_say_jump = Some ''hello''"
    by (simp add: hello_say_jump_def)
  have p: "list_all (plainSkill ?env) (actions hello_say_jump)"
    by code_simp
  note t = solo_chat_field_discarded [OF solo, of ?a ?ready hello_say_jump]
  note t' = solo_chat_field_discarded [OF solo', of ?a ?ready' hello_tasks]
  have none: "filter is_decision_chat (effects (autonomousStep social_config ?env ?a)) = []"
    using conjunct1 [OF t] by (simp add: fresh_agent_def)
  have "autonomousStep social_config ?env ?a
          = pickupDrops social_config ?env
              (?ready\<lparr>effects := effects ?ready @ Query (mode (pl ?ready))
                  # map (\<lambda>x. Skill (a_name x) (a_args x) False) (actions hello_say_jump)\<rparr>)"
    using conjunct2 [OF conjunct2 [OF t]] g b p by simp
  moreover have "effects (pickupDrops social_config ?env
              (?ready\<lparr>effects := effects ?ready @ Query (mode (pl ?ready))
                  # map (\<lambda>x. Skill (a_name x) (a_args x) False) (actions hello_say_jump)\<rparr>))
          = [Query Autonomous, Skill ''say'' (no_args\<lparr>arg_text := Some ''hello''\<rparr>) False,
             Skill ''jump'' no_args False]"
    by code_simp
  ultimately have acts: "effects (autonomousStep social_config ?env ?a)
          = [Query Autonomous, Skill ''say'' (no_args\<lparr>arg_text := Some ''hello''\<rparr>) False,
             Skill ''jump'' no_args False]"
    by simp
  have "autonomousStep follow_config ?env' ?a
          = pickupDrops follow_config ?env'
              (run_actions follow_config ?env' ''autonomous'' None (actions hello_tasks)
                 (emit (Query (mode (pl ?ready'))) ?ready'))"
    using conjunct1 [OF conjunct2 [OF t']] g' b' by simp
  moreover have "effects (pickupDrops follow_config ?env'
              (run_actions follow_config ?env' ''autonomous'' None (actions hello_tasks)
                 (emit (Query (mode (pl ?ready'))) ?ready')))
          = [Query Autonomous, Started (Mine ''stone'' 5), Started (Farm None),
             Followed ''alex'' (no_args\<lparr>arg_entity_name := Some ''alex''\<rparr>),
             Skill ''say'' (no_args\<lparr>arg_text := Some ''hello''\<rparr>) False]"
    by code_simp
  ultimately have acts': "effects (autonomousStep follow_config ?env' ?a)
          = [Query Autonomous, Started (Mine ''stone'' 5), Started (Farm None),
             Followed ''alex'' (no_args\<lparr>arg_entity_name := Some ''alex''\<rparr>),
             Skill ''say'' (no_args\<lparr>arg_text := Some ''hello''\<rparr>) False]"
    by simp
  show ?thesis
    by (intro conjI) (rule solo go c p none acts solo' go' acts')+
qed

text \<open>
  A solo step in which the backend proposes the same text twice, as the chat field and
  as the argument of a \<^verbatim>\<open>say\<close> action: the field is dropped, the action reaches the
  skill surface with its text.
\<close>

theorem solo_speech_tool_counterexample:
  "nearbyOf social_config (e_scan (quiet_env 30000 [] (Some hello_say_jump))) = []
   \<and> e_backend (quiet_env 30000 [] (Some hello_say_jump)) = Some hello_say_jump
   \<and> chat hello_say_jump = Some ''hello''
   \<and> filter carries_chat
        (effects (autonomousStep social_config (quiet_env 30000 [] (Some hello_say_jump))
                    (fresh_agent Autonomous 0)))
       = [Skill ''say'' (no_args\<lparr>arg_text := Some ''hello''\<rparr>) False]"
  by code_simp

theorem social_turn_only_on_acceptance_witness:
  "\<not> isl (gate baseConfig (quiet_env 600000 three_nearby (Some hello_jump))
            (fresh_agent Autonomous 400000))
   \<and> socialIndex (pl (autonomousStep baseConfig
          (quiet_env 600000 three_nearby (Some hello_jump))
          (fresh_agent Autonomous 400000))) = 0
   \<and> lastSocialChatAt (pl (autonomousStep baseConfig
          (quiet_env 600000 three_nearby (Some hello_jump))
          (fresh_agent Autonomous 400000))) = 0
   \<and> lastSpokeAt (pl (autonomousStep baseConfig
          (quiet_env 600000 three_nearby (Some hello_jump))
          (fresh_agent Autonomous 400000))) ''alex'' = None
   \<and> \<not> isl (gate baseConfig (quiet_env 600000 three_nearby (Some hello_jump))
            (fresh_agent Autonomous 0))
   \<and> socialIndex (pl (autonomousStep baseConfig
          (quiet_env 600000 three_nearby (Some hello_jump))
          (fresh_agent Autonomous 0))) = 1
   \<and> lastSocialChatAt (pl (autonomousStep baseConfig
          (quiet_env 600000 three_nearby (Some hello_jump))
          (fresh_agent Autonomous 0))) = 600000
   \<and> lastSpokeAt (pl (autonomousStep baseConfig
          (quiet_env 600000 three_nearby (Some hello_jump))
          (fresh_agent Autonomous 0))) ''alex'' = Some 600000"
proof -
  let ?env = "quiet_env 600000 three_nearby (Some hello_jump)"
  let ?tgt = "seen ''alex'' 3"
  have b: "e_backend ?env = Some hello_jump"
    by (simp add: quiet_env_def)
  have c: "chat hello_jump = Some ''hello''"
    by (simp add: hello_jump_def)
  have n: "''hello'' \<noteq> []"
    by simp
  have nm: "p_name ?tgt = ''alex''"
    by (simp add: seen_def)
  have clk: "e_clock ?env = 600000"
    by (simp add: quiet_env_def)
  \<comment> \<open>the throttle constructed at 400000 is not yet due at 600000: the utterance is rejected\<close>
  let ?a = "fresh_agent Autonomous 400000"
  let ?ready = "projr (gate baseConfig ?env ?a)"
  let ?sm = "the (speech ?ready)"
  have go: "\<not> isl (gate baseConfig ?env ?a)"
    by (rule early_throttle_example_consults)
  have g: "gate baseConfig ?env ?a = Inr ?ready"
    by (rule sum.collapse(2) [OF go, symmetric])
  have tg: "getSocialTarget (e_key ?env) baseConfig (e_muted ?env) (e_bot ?env) (e_clock ?env)
              (pl ?ready) (nearbyOf baseConfig (e_scan ?env)) = Some ?tgt"
    by code_simp
  have "speech ?ready \<noteq> None"
    by code_simp
  then have sp: "speech ?ready = Some ?sm"
    by (rule option.collapse [symmetric])
  have rej: "\<not> fst (enqueue (e_normalize ?env) baseConfig
                     (e_speech ?env (Suc (length (effects ?ready))))
                     (addressTarget ?env ?tgt ''hello'') ''autonomous''
                     (Some (p_name ?tgt)) ?sm)"
    by code_simp
  have kept: "social_fields (pl (autonomousStep baseConfig ?env ?a)) = social_fields (pl ?a)"
    using conjunct1 [OF social_turn_only_on_acceptance [OF g tg b c n sp]] rej by simp
  have k: "socialIndex (pl (autonomousStep baseConfig ?env ?a)) = 0
           \<and> lastSocialChatAt (pl (autonomousStep baseConfig ?env ?a)) = 0
           \<and> lastSpokeAt (pl (autonomousStep baseConfig ?env ?a)) ''alex'' = None"
    using kept by (simp add: social_fields_def fresh_agent_def new_planner_def)
  \<comment> \<open>the throttle constructed at 0 is due: the utterance is accepted\<close>
  let ?b = "fresh_agent Autonomous 0"
  let ?prepared = "projr (gate baseConfig ?env ?b)"
  let ?sn = "the (speech ?prepared)"
  have go': "\<not> isl (gate baseConfig ?env ?b)"
    by (rule due_throttle_example_consults)
  have g': "gate baseConfig ?env ?b = Inr ?prepared"
    by (rule sum.collapse(2) [OF go', symmetric])
  have tg': "getSocialTarget (e_key ?env) baseConfig (e_muted ?env) (e_bot ?env) (e_clock ?env)
              (pl ?prepared) (nearbyOf baseConfig (e_scan ?env)) = Some ?tgt"
    by code_simp
  have "speech ?prepared \<noteq> None"
    by code_simp
  then have sp': "speech ?prepared = Some ?sn"
    by (rule option.collapse [symmetric])
  have acc: "fst (enqueue (e_normalize ?env) baseConfig
                     (e_speech ?env (Suc (length (effects ?prepared))))
                     (addressTarget ?env ?tgt ''hello'') ''autonomous''
                     (Some (p_name ?tgt)) ?sn)"
    by code_simp
  have moved: "social_fields (pl (autonomousStep baseConfig ?env ?b))
                 = (Suc (socialIndex (pl ?b)), e_clock ?env,
                    (lastSpokeAt (pl ?b))(p_name ?tgt \<mapsto> e_clock ?env))"
    using conjunct2 [OF social_turn_only_on_acceptance [OF g' tg' b c n sp']] acc by simp
  have m: "socialIndex (pl (autonomousStep baseConfig ?env ?b)) = 1
           \<and> lastSocialChatAt (pl (autonomousStep baseConfig ?env ?b)) = 600000
           \<and> lastSpokeAt (pl (autonomousStep baseConfig ?env ?b)) ''alex'' = Some 600000"
    using moved by (simp add: social_fields_def fresh_agent_def new_planner_def nm clk)
  show ?thesis
    using go k go' m by simp
qed

theorem query_cooldown_consumed_witness:
  "\<not> fst (survivalStage baseConfig (quiet_env 30000 three_nearby (Some hello_jump))
            decided_recently)
   \<and> shouldQueryLLM baseConfig 30000 True (new_planner Autonomous)
       = (True, (new_planner Autonomous)\<lparr>lastLLMAt := 30000\<rparr>)
   \<and> shouldQueryLLM (baseConfig\<lparr>chatCooldown := Some 0\<rparr>) 30000 False (new_planner Autonomous)
       = (True, new_planner Autonomous)
   \<and> shouldQueryLLM baseConfig 2000 False (new_planner Autonomous)
       = (False, new_planner Autonomous)
   \<and> lastLLMAt (pl (autonomousStep baseConfig
        (quiet_env 30000 three_nearby (Some hello_jump)) decided_recently)) = 30000
   \<and> effects (autonomousStep baseConfig
        (quiet_env 30000 three_nearby (Some hello_jump)) decided_recently) = []"
proof -
  let ?env = "quiet_env 30000 three_nearby (Some hello_jump)"
  let ?p = "new_planner Autonomous"
  have cd: "truthy_or 0 (chatCooldown baseConfig) = 5000"
    and dc: "truthy_or 0 (autonomousDecisionCooldownMs baseConfig) = 20000"
    and c0: "truthy_or 0 (chatCooldown (baseConfig\<lparr>chatCooldown := Some 0\<rparr>)) = 0"
    by (simp_all add: baseConfig_def truthy_or_def)
  have clk: "e_clock ?env = 30000"
    by (simp add: quiet_env_def)
  have pa: "lastLLMAt (pl decided_recently) = 0"
    "lastAutonomousDecisionAt (pl decided_recently) = 25000"
    "effects decided_recently = []"
    by (simp_all add: decided_recently_def fresh_agent_def new_planner_def)
  have ll: "lastLLMAt ?p = 0"
    by (simp add: new_planner_def)
  have st: "\<not> fst (survivalStage baseConfig ?env decided_recently)"
    by code_simp
  note forced = query_cooldown_consumed
    [where force = True and cfg = baseConfig and now = 30000 and p = ?p
       and env = ?env and a = decided_recently]
  note disabled = query_cooldown_consumed
    [where force = False and cfg = "baseConfig\<lparr>chatCooldown := Some 0\<rparr>" and now = 30000
       and p = ?p and env = ?env and a = decided_recently]
  note waiting = query_cooldown_consumed
    [where force = False and cfg = baseConfig and now = 2000 and p = ?p
       and env = ?env and a = decided_recently]
  have r1: "shouldQueryLLM baseConfig 30000 True ?p = (True, ?p\<lparr>lastLLMAt := 30000\<rparr>)"
    using conjunct1 [OF forced] by simp
  have r2: "shouldQueryLLM (baseConfig\<lparr>chatCooldown := Some 0\<rparr>) 30000 False ?p = (True, ?p)"
    using conjunct1 [OF conjunct2 [OF disabled]] by (simp add: truthy_or_def)
  have r3: "shouldQueryLLM baseConfig 2000 False ?p = (False, ?p)"
    using conjunct1 [OF conjunct2 [OF conjunct2 [OF waiting]]] by (simp add: cd ll)
  have r4: "lastLLMAt (pl (autonomousStep baseConfig ?env decided_recently)) = 30000
            \<and> effects (autonomousStep baseConfig ?env decided_recently) = []"
    using conjunct2 [OF conjunct2 [OF conjunct2 [OF forced]]] st
    by (simp add: cd dc clk pa)
  show ?thesis
    using st r1 r2 r3 r4 by simp
qed

theorem query_cooldown_disabled_counterexample:
  "fst (shouldQueryLLM (baseConfig\<lparr>chatCooldown := Some 0\<rparr>) 30000 False
          (new_planner Autonomous))
   \<and> lastLLMAt (snd (shouldQueryLLM (baseConfig\<lparr>chatCooldown := Some 0\<rparr>) 30000 False
          (new_planner Autonomous))) = 0
   \<and> lastLLMAt (snd (shouldQueryLLM (baseConfig\<lparr>chatCooldown := Some 0\<rparr>) 30000 False
          (new_planner Autonomous))) \<noteq> 30000"
  by code_simp

end
